theory Spec2Isabelle
  imports Main "HOL-Library.Char_ord" "HOL-Library.List_Lexorder"
begin

section \<open>Credit usage analyzer (credits.py): data model\<close>

text \<open>
  Python values that end up in the dictionaries the program builds and aggregates.
  A dictionary is an association list in insertion order; \<open>map_of\<close> is the lookup.
  Python integers are unbounded, hence \<open>int\<close>. Console output is not modelled.
\<close>

datatype pyval = PNone | PInt int | PStr string | PDict "(string \<times> pyval) list"

type_synonym pydict = "(string \<times> pyval) list"

text \<open>Exceptions as values; each carries the text that \<open>str(e)\<close> would give.\<close>

datatype py_error =
    KeyError string
  | TypeError string
  | AttributeError string
  | ValueError string
  | RemoteError string

fun error_str :: "py_error \<Rightarrow> string" where
  "error_str (KeyError m) = m"
| "error_str (TypeError m) = m"
| "error_str (AttributeError m) = m"
| "error_str (ValueError m) = m"
| "error_str (RemoteError m) = m"

text \<open>Truthiness, as \<open>if v:\<close> and \<open>not v\<close> test it.\<close>

fun truthy :: "pyval \<Rightarrow> bool" where
  "truthy PNone = False"
| "truthy (PInt n) = (n \<noteq> 0)"
| "truthy (PStr s) = (s \<noteq> [])"
| "truthy (PDict d) = (d \<noteq> [])"

text \<open>A dictionary cannot be a dictionary key.\<close>

fun hashable :: "pyval \<Rightarrow> bool" where
  "hashable (PDict d) = False"
| "hashable v = True"

text \<open>An optional string attribute copied into a dictionary as it is.\<close>

fun opt_str :: "string option \<Rightarrow> pyval" where
  "opt_str None = PNone"
| "opt_str (Some s) = PStr s"

fun opt_int :: "int option \<Rightarrow> pyval" where
  "opt_int None = PNone"
| "opt_int (Some n) = PInt n"

text \<open>\<open>str(x) if x else None\<close> for an optional string-valued attribute.\<close>

fun str_if :: "string option \<Rightarrow> pyval" where
  "str_if None = PNone"
| "str_if (Some s) = (if s = [] then PNone else PStr s)"

text \<open>\<open>x.dict() if x else None\<close>: the field holds the dictionary image when present.\<close>

fun dict_if :: "pydict option \<Rightarrow> pyval" where
  "dict_if None = PNone"
| "dict_if (Some d) = PDict d"

subsection \<open>Records returned by the remote client\<close>

text \<open>
  One speech-generation history item. For the two character counters \<open>None\<close> means that
  the object has no such attribute (what \<open>hasattr\<close> tests); the other optional fields
  are attributes whose value may be Python's \<open>None\<close>.
\<close>

record history_item =
  history_item_id :: string
  date_unix :: int
  character_count_change_from :: "int option"
  character_count_change_to :: "int option"
  text_of :: "string option"
  voice_id :: "string option"
  voice_name :: "string option"
  voice_category :: "string option"
  model_id :: "string option"
  content_type :: "string option"
  source :: "string option"
  request_id :: "string option"
  settings :: pyval
  feedback :: "pydict option"

record history_response =
  history :: "history_item list"
  has_more :: bool
  last_history_item_id :: "string option"

text \<open>A listed conversation (list-level fields only).\<close>

record conversation =
  conversation_id :: string
  agent_id :: string
  start_time_unix_secs :: int
  call_duration_secs :: int
  status :: string

text \<open>
  A transcript entry: \<open>llm_usage = None\<close> stands for an entry without the attribute or
  with a false value there; \<open>total_tokens = None\<close> for a usage object without that
  attribute.
\<close>

record llm_usage_info =
  total_tokens :: "int option"

record transcript_item =
  role :: string
  llm_usage :: "llm_usage_info option"

record conv_metadata =
  md_start_time_unix_secs :: int
  md_call_duration_secs :: int
  cost :: "int option"
  accepted_time_unix_secs :: "int option"
  termination_reason :: "string option"
  main_language :: "string option"
  charging :: "pydict option"
  phone_call :: "pydict option"
  error_of :: "pydict option"

record detailed_conv =
  metadata :: "conv_metadata option"
  transcript :: "transcript_item list"

record conversations_response =
  conversations :: "conversation list"
  cursor :: "string option"

text \<open>
  The remote client: each call either raises or returns a response. \<open>history_list\<close>
  takes the page size and the id to start after; \<open>conversations_list\<close> the cursor, the
  two bounds in seconds and the page size; \<open>conversations_get\<close> a conversation id.
\<close>

record client =
  history_list :: "nat \<Rightarrow> string option \<Rightarrow> py_error + history_response"
  conversations_list ::
    "string option \<Rightarrow> int \<Rightarrow> int \<Rightarrow> nat \<Rightarrow> py_error + conversations_response"
  conversations_get :: "string \<Rightarrow> py_error + detailed_conv"

section \<open>Timestamps\<close>

definition normalize_timestamp :: "int \<Rightarrow> int" where
  "normalize_timestamp timestamp =
     (if timestamp < 32503680000 then timestamp * 1000 else timestamp)"

text \<open>
  \<open>format_timestamp\<close> calls the standard library:
  \<open>datetime.utcfromtimestamp(timestamp_ms / 1000).strftime('%Y-%m-%d %H:%M:%S UTC')\<close>.
  The library is modelled by the proleptic Gregorian calendar on whole seconds (the
  format drops the fraction, so the quotient is the floor), years padded to four digits,
  and \<open>ValueError\<close> outside the years 1 to 9999, which is where the library raises.
\<close>

definition civil_from_days :: "int \<Rightarrow> int \<times> int \<times> int" where
  "civil_from_days days =
     (let z = days + 719468;
          era = z div 146097;
          doe = z - era * 146097;
          yoe = (doe - doe div 1460 + doe div 36524 - doe div 146096) div 365;
          doy = doe - (365 * yoe + yoe div 4 - yoe div 100);
          mp = (5 * doy + 2) div 153;
          d = doy - (153 * mp + 2) div 5 + 1;
          m = (if mp < 10 then mp + 3 else mp - 9);
          y = yoe + era * 400 + (if m \<le> 2 then 1 else 0)
      in (y, m, d))"

definition digit :: "int \<Rightarrow> char" where
  "digit d = ''0123456789'' ! nat (d mod 10)"

definition pad2 :: "int \<Rightarrow> string" where
  "pad2 n = [digit (n div 10), digit n]"

definition pad4 :: "int \<Rightarrow> string" where
  "pad4 n = [digit (n div 1000), digit (n div 100), digit (n div 10), digit n]"

definition format_timestamp :: "int \<Rightarrow> py_error + string" where
  "format_timestamp timestamp_ms =
     (let secs = timestamp_ms div 1000;
          sod = secs mod 86400
      in case civil_from_days (secs div 86400) of (y, m, d) \<Rightarrow>
           if y < 1 \<or> 9999 < y then Inl (ValueError ''year is out of range'')
           else Inr (pad4 y @ ''-'' @ pad2 m @ ''-'' @ pad2 d @ '' '' @
                     pad2 (sod div 3600) @ '':'' @ pad2 (sod div 60 mod 60) @ '':'' @
                     pad2 (sod mod 60) @ '' UTC''))"

section \<open>Speech-generation history\<close>

definition calculate_credits_used :: "history_item \<Rightarrow> int" where
  "calculate_credits_used item =
     (case character_count_change_from item of
        None \<Rightarrow> 0
      | Some cfrom \<Rightarrow>
          (case character_count_change_to item of
             None \<Rightarrow> 0
           | Some cto \<Rightarrow> cfrom - cto))"

text \<open>
  The dictionary built for an item inside the window. The entries are evaluated in
  order, so a failing \<open>format_timestamp\<close> is raised before a missing counter attribute.
\<close>

definition call_data :: "history_item \<Rightarrow> int \<Rightarrow> py_error + pydict" where
  "call_data item item_time_ms =
     (let credits_used = calculate_credits_used item in
      case format_timestamp item_time_ms of
        Inl e \<Rightarrow> Inl e
      | Inr formatted \<Rightarrow>
          (case character_count_change_from item of
             None \<Rightarrow> Inl (AttributeError ''character_count_change_from'')
           | Some cfrom \<Rightarrow>
               (case character_count_change_to item of
                  None \<Rightarrow> Inl (AttributeError ''character_count_change_to'')
                | Some cto \<Rightarrow>
                    Inr [(''type'', PStr ''speech_generation''),
                         (''id'', PStr (history_item_id item)),
                         (''timestamp'', PInt (date_unix item)),
                         (''timestamp_ms'', PInt item_time_ms),
                         (''formatted_time'', PStr formatted),
                         (''credits_used'', PInt credits_used),
                         (''text'', opt_str (text_of item)),
                         (''voice_id'', opt_str (voice_id item)),
                         (''voice_name'', opt_str (voice_name item)),
                         (''voice_category'', str_if (voice_category item)),
                         (''model_id'', opt_str (model_id item)),
                         (''content_type'', opt_str (content_type item)),
                         (''source'', str_if (source item)),
                         (''character_count_from'', PInt cfrom),
                         (''character_count_to'', PInt cto),
                         (''request_id'', opt_str (request_id item)),
                         (''settings'', settings item),
                         (''feedback'', dict_if (feedback item))])))"

text \<open>
  The \<open>for item in response.history\<close> loop over one page. It ends in one of three ways:
  the page is exhausted, an item older than the window makes the function return, or
  building a dictionary raises (caught by the handler around the loop body of the
  \<open>while\<close>, which breaks).
\<close>

datatype page_scan =
    Exhausted "pydict list"
  | Returned "pydict list"
  | Raised py_error "pydict list"

fun scan_page :: "int \<Rightarrow> int \<Rightarrow> history_item list \<Rightarrow> pydict list \<Rightarrow> page_scan" where
  "scan_page start_ms end_ms [] all_history = Exhausted all_history"
| "scan_page start_ms end_ms (item # items) all_history =
     (let item_time_ms = date_unix item * 1000 in
      if start_ms \<le> item_time_ms \<and> item_time_ms \<le> end_ms then
        (case call_data item item_time_ms of
           Inl e \<Rightarrow> Raised e all_history
         | Inr d \<Rightarrow> scan_page start_ms end_ms items (all_history @ [d]))
      else if item_time_ms < start_ms then Returned all_history
      else scan_page start_ms end_ms items all_history)"

definition page_size_history :: nat where
  "page_size_history = 1000"

text \<open>
  The \<open>while True\<close> loop, with its two loop variables \<open>start_after_id\<close> and
  \<open>all_history\<close>. It need not end: \<open>None\<close> is a run that never returns.
\<close>

partial_function (option) history_loop ::
  "client \<Rightarrow> int \<Rightarrow> int \<Rightarrow> string option \<Rightarrow> pydict list \<Rightarrow> pydict list option" where
  "history_loop cl start_ms end_ms start_after_id all_history =
     (case history_list cl page_size_history start_after_id of
        Inl e \<Rightarrow> Some all_history
      | Inr response \<Rightarrow>
          if history response = [] then Some all_history
          else
            (case scan_page start_ms end_ms (history response) all_history of
               Returned h \<Rightarrow> Some h
             | Raised e h \<Rightarrow> Some h
             | Exhausted h \<Rightarrow>
                 if \<not> has_more response then Some h
                 else history_loop cl start_ms end_ms (last_history_item_id response) h))"

declare history_loop.simps [code]

definition get_speech_history :: "client \<Rightarrow> int \<Rightarrow> int \<Rightarrow> pydict list option" where
  "get_speech_history cl start_ms end_ms = history_loop cl start_ms end_ms None []"

section \<open>Conversational sessions\<close>

text \<open>The token sum over the transcript, with its accumulator.\<close>

fun sum_llm_tokens :: "transcript_item list \<Rightarrow> int \<Rightarrow> int" where
  "sum_llm_tokens [] total_llm_tokens = total_llm_tokens"
| "sum_llm_tokens (transcript_item # items) total_llm_tokens =
     (case llm_usage transcript_item of
        None \<Rightarrow> sum_llm_tokens items total_llm_tokens
      | Some usage \<Rightarrow>
          (case total_tokens usage of
             None \<Rightarrow> sum_llm_tokens items total_llm_tokens
           | Some n \<Rightarrow> sum_llm_tokens items (total_llm_tokens + n)))"

definition total_cost_of :: "conv_metadata \<Rightarrow> int" where
  "total_cost_of md = (case cost md of None \<Rightarrow> 0 | Some c \<Rightarrow> if c \<noteq> 0 then c else 0)"

text \<open>
  The fully enriched dictionary. Reading \<open>detailed_conv.metadata.cost\<close> raises when the
  metadata is absent.
\<close>

definition conv_data :: "conversation \<Rightarrow> detailed_conv \<Rightarrow> py_error + pydict" where
  "conv_data c detailed =
     (case metadata detailed of
        None \<Rightarrow> Inl (AttributeError ''cost'')
      | Some md \<Rightarrow>
          (let total_cost = total_cost_of md;
               total_llm_tokens = sum_llm_tokens (transcript detailed) 0
           in case format_timestamp (md_start_time_unix_secs md * 1000) of
                Inl e \<Rightarrow> Inl e
              | Inr formatted \<Rightarrow>
                  Inr [(''type'', PStr ''conversational_ai''),
                       (''id'', PStr (conversation_id c)),
                       (''agent_id'', PStr (agent_id c)),
                       (''timestamp'', PInt (md_start_time_unix_secs md)),
                       (''timestamp_ms'', PInt (md_start_time_unix_secs md * 1000)),
                       (''formatted_time'', PStr formatted),
                       (''credits_used'', PInt total_cost),
                       (''duration_secs'', PInt (md_call_duration_secs md)),
                       (''status'', PStr (status c)),
                       (''total_llm_tokens'', PInt total_llm_tokens),
                       (''accepted_time'', opt_int (accepted_time_unix_secs md)),
                       (''termination_reason'', opt_str (termination_reason md)),
                       (''main_language'', opt_str (main_language md)),
                       (''charging_info'', dict_if (charging md)),
                       (''phone_call_info'', dict_if (phone_call md)),
                       (''error_info'', dict_if (error_of md)),
                       (''transcript_summary'',
                          PDict [(''total_items'', PInt (int (length (transcript detailed)))),
                                 (''user_messages'',
                                    PInt (int (length (filter (\<lambda>t. role t = ''user'')
                                                        (transcript detailed))))),
                                 (''assistant_messages'',
                                    PInt (int (length (filter (\<lambda>t. role t = ''assistant'')
                                                        (transcript detailed)))))])]))"

text \<open>The degraded dictionary built in the handler, from list-level fields only.\<close>

definition degraded_conv_data :: "conversation \<Rightarrow> py_error \<Rightarrow> py_error + pydict" where
  "degraded_conv_data c e =
     (case format_timestamp (start_time_unix_secs c * 1000) of
        Inl e' \<Rightarrow> Inl e'
      | Inr formatted \<Rightarrow>
          Inr [(''type'', PStr ''conversational_ai''),
               (''id'', PStr (conversation_id c)),
               (''agent_id'', PStr (agent_id c)),
               (''timestamp'', PInt (start_time_unix_secs c)),
               (''timestamp_ms'', PInt (start_time_unix_secs c * 1000)),
               (''formatted_time'', PStr formatted),
               (''credits_used'', PInt 0),
               (''duration_secs'', PInt (call_duration_secs c)),
               (''status'', PStr (status c)),
               (''error'', PStr (''Could not fetch detailed data: '' @ error_str e))])"

text \<open>The inner \<open>try\<close>: fetch the detail and build the enriched dictionary.\<close>

definition fetch_and_enrich :: "client \<Rightarrow> conversation \<Rightarrow> py_error + pydict" where
  "fetch_and_enrich cl c =
     (case conversations_get cl (conversation_id c) of
        Inl e \<Rightarrow> Inl e
      | Inr detailed \<Rightarrow> conv_data c detailed)"

text \<open>
  The \<open>for conversation in response.conversations\<close> loop. An exception of the inner
  \<open>try\<close> is handled per conversation; one raised inside the handler leaves the loop.
\<close>

fun process_conversations ::
  "client \<Rightarrow> conversation list \<Rightarrow> pydict list \<Rightarrow> py_error + pydict list" where
  "process_conversations cl [] all_conversations = Inr all_conversations"
| "process_conversations cl (c # cs) all_conversations =
     (case fetch_and_enrich cl c of
        Inr d \<Rightarrow> process_conversations cl cs (all_conversations @ [d])
      | Inl e \<Rightarrow>
          (case degraded_conv_data c e of
             Inl e' \<Rightarrow> Inl e'
           | Inr d \<Rightarrow> process_conversations cl cs (all_conversations @ [d])))"

definition page_size_conversations :: nat where
  "page_size_conversations = 100"

text \<open>
  The \<open>while True\<close> loop over the cursor. \<open>None\<close> is a run that never returns,
  \<open>Some (Inl e)\<close> an exception that reaches the outer handler.
\<close>

partial_function (option) conversations_loop ::
  "client \<Rightarrow> int \<Rightarrow> int \<Rightarrow> string option \<Rightarrow> pydict list \<Rightarrow> (py_error + pydict list) option"
  where
  "conversations_loop cl start_unix_secs end_unix_secs cur all_conversations =
     (case conversations_list cl cur start_unix_secs end_unix_secs page_size_conversations of
        Inl e \<Rightarrow> Some (Inl e)
      | Inr response \<Rightarrow>
          if conversations response = [] then Some (Inr all_conversations)
          else
            (case process_conversations cl (conversations response) all_conversations of
               Inl e \<Rightarrow> Some (Inl e)
             | Inr all' \<Rightarrow>
                 (case cursor response of
                    None \<Rightarrow> Some (Inr all')
                  | Some next_cursor \<Rightarrow>
                      if next_cursor = [] then Some (Inr all')
                      else conversations_loop cl start_unix_secs end_unix_secs
                             (Some next_cursor) all')))"

declare conversations_loop.simps [code]

definition get_conversation_history :: "client \<Rightarrow> int \<Rightarrow> int \<Rightarrow> pydict list option" where
  "get_conversation_history cl start_ms end_ms =
     (case conversations_loop cl (start_ms div 1000) (end_ms div 1000) None [] of
        None \<Rightarrow> None
      | Some (Inl e) \<Rightarrow> Some []
      | Some (Inr all_conversations) \<Rightarrow> Some all_conversations)"

section \<open>The aggregator\<close>

text \<open>One entry of a breakdown: \<open>{"count": ..., "credits": ...}\<close>.\<close>

record bucket =
  count :: int
  credits :: int

type_synonym buckets = "(pyval \<times> bucket) list"

text \<open>\<open>call.get("credits_used", 0)\<close>\<close>

definition credits_used_of :: "pydict \<Rightarrow> pyval" where
  "credits_used_of call = (case map_of call ''credits_used'' of None \<Rightarrow> PInt 0 | Some v \<Rightarrow> v)"

text \<open>\<open>sum(... for call in all_calls)\<close>: integer addition from 0; anything else raises.\<close>

fun sum_credits :: "pydict list \<Rightarrow> int \<Rightarrow> py_error + int" where
  "sum_credits [] total_credits = Inr total_credits"
| "sum_credits (call # calls) total_credits =
     (case credits_used_of call of
        PInt c \<Rightarrow> sum_credits calls (total_credits + c)
      | _ \<Rightarrow> Inl (TypeError ''unsupported operand type(s) for +''))"

text \<open>
  The three statements of a grouping loop body: create the entry at zero when the key
  is new (at the end, as dictionaries keep insertion order), then add to both fields.
\<close>

fun bucket_add :: "buckets \<Rightarrow> pyval \<Rightarrow> int \<Rightarrow> buckets" where
  "bucket_add [] k c = [(k, \<lparr>count = 0 + 1, credits = 0 + c\<rparr>)]"
| "bucket_add ((k', b) # bs) k c =
     (if k' = k then (k', \<lparr>count = count b + 1, credits = credits b + c\<rparr>) # bs
      else (k', b) # bucket_add bs k c)"

definition add_call :: "buckets \<Rightarrow> pyval \<Rightarrow> pyval \<Rightarrow> py_error + buckets" where
  "add_call by k v =
     (if \<not> hashable k then Inl (TypeError ''unhashable type'')
      else case v of
             PInt c \<Rightarrow> Inr (bucket_add by k c)
           | _ \<Rightarrow> Inl (TypeError ''unsupported operand type(s) for +=''))"

fun group_by_type :: "pydict list \<Rightarrow> buckets \<Rightarrow> py_error + buckets" where
  "group_by_type [] by_type = Inr by_type"
| "group_by_type (call # calls) by_type =
     (case map_of call ''type'' of
        None \<Rightarrow> Inl (KeyError ''type'')
      | Some call_type \<Rightarrow>
          (case add_call by_type call_type (credits_used_of call) of
             Inl e \<Rightarrow> Inl e
           | Inr by_type' \<Rightarrow> group_by_type calls by_type'))"

text \<open>
  The loops for \<open>by_source\<close> and \<open>by_voice\<close> are the same text with the field name
  \<open>"source"\<close> or \<open>"voice_name"\<close>: \<open>call.get(field)\<close> must be true for the call to count.
\<close>

fun group_speech_by :: "string \<Rightarrow> pydict list \<Rightarrow> buckets \<Rightarrow> py_error + buckets" where
  "group_speech_by field [] by = Inr by"
| "group_speech_by field (call # calls) by =
     (case map_of call ''type'' of
        None \<Rightarrow> Inl (KeyError ''type'')
      | Some call_type \<Rightarrow>
          (case map_of call field of
             None \<Rightarrow> group_speech_by field calls by
           | Some v \<Rightarrow>
               if call_type = PStr ''speech_generation'' \<and> truthy v then
                 (case add_call by v (credits_used_of call) of
                    Inl e \<Rightarrow> Inl e
                  | Inr by' \<Rightarrow> group_speech_by field calls by')
               else group_speech_by field calls by))"

text \<open>\<open>a < b\<close> on Python values: defined between two integers or two strings.\<close>

fun py_lt :: "pyval \<Rightarrow> pyval \<Rightarrow> py_error + bool" where
  "py_lt (PInt a) (PInt b) = Inr (a < b)"
| "py_lt (PStr a) (PStr b) = Inr (a < b)"
| "py_lt a b = Inl (TypeError ''not supported between instances'')"

definition formatted_time_of :: "pydict \<Rightarrow> py_error + pyval" where
  "formatted_time_of call =
     (case map_of call ''formatted_time'' of
        None \<Rightarrow> Inl (KeyError ''formatted_time'')
      | Some v \<Rightarrow> Inr v)"

text \<open>
  \<open>min\<close> and \<open>max\<close> over the generator: the running value is replaced when the next
  one is smaller (\<open>min\<close>) or greater (\<open>max\<close>).
\<close>

fun min_formatted :: "pydict list \<Rightarrow> pyval \<Rightarrow> py_error + pyval" where
  "min_formatted [] m = Inr m"
| "min_formatted (call # calls) m =
     (case formatted_time_of call of
        Inl e \<Rightarrow> Inl e
      | Inr v \<Rightarrow>
          (case py_lt v m of
             Inl e \<Rightarrow> Inl e
           | Inr smaller \<Rightarrow> min_formatted calls (if smaller then v else m)))"

fun max_formatted :: "pydict list \<Rightarrow> pyval \<Rightarrow> py_error + pyval" where
  "max_formatted [] m = Inr m"
| "max_formatted (call # calls) m =
     (case formatted_time_of call of
        Inl e \<Rightarrow> Inl e
      | Inr v \<Rightarrow>
          (case py_lt m v of
             Inl e \<Rightarrow> Inl e
           | Inr larger \<Rightarrow> max_formatted calls (if larger then v else m)))"

definition earliest_of :: "pydict list \<Rightarrow> py_error + pyval" where
  "earliest_of all_calls =
     (case all_calls of
        [] \<Rightarrow> Inr PNone
      | call # calls \<Rightarrow>
          (case formatted_time_of call of Inl e \<Rightarrow> Inl e | Inr v \<Rightarrow> min_formatted calls v))"

definition latest_of :: "pydict list \<Rightarrow> py_error + pyval" where
  "latest_of all_calls =
     (case all_calls of
        [] \<Rightarrow> Inr PNone
      | call # calls \<Rightarrow>
          (case formatted_time_of call of Inl e \<Rightarrow> Inl e | Inr v \<Rightarrow> max_formatted calls v))"

record usage_summary =
  total_api_calls :: int
  total_credits_used :: int
  breakdown_by_type :: buckets
  breakdown_by_source :: buckets
  breakdown_by_voice :: buckets
  earliest_call :: pyval
  latest_call :: pyval

definition summarize_usage :: "pydict list \<Rightarrow> py_error + usage_summary" where
  "summarize_usage all_calls =
     (case sum_credits all_calls 0 of
        Inl e \<Rightarrow> Inl e
      | Inr total_credits \<Rightarrow>
     (case group_by_type all_calls [] of
        Inl e \<Rightarrow> Inl e
      | Inr by_type \<Rightarrow>
     (case group_speech_by ''source'' all_calls [] of
        Inl e \<Rightarrow> Inl e
      | Inr by_source \<Rightarrow>
     (case group_speech_by ''voice_name'' all_calls [] of
        Inl e \<Rightarrow> Inl e
      | Inr by_voice \<Rightarrow>
     (case earliest_of all_calls of
        Inl e \<Rightarrow> Inl e
      | Inr earliest \<Rightarrow>
     (case latest_of all_calls of
        Inl e \<Rightarrow> Inl e
      | Inr latest \<Rightarrow>
          Inr \<lparr>total_api_calls = int (length all_calls),
               total_credits_used = total_credits,
               breakdown_by_type = by_type,
               breakdown_by_source = by_source,
               breakdown_by_voice = by_voice,
               earliest_call = earliest,
               latest_call = latest\<rparr>))))))"

section \<open>The program\<close>

text \<open>
  What \<open>main\<close> reads: the value of the environment variable (\<open>None\<close> when it is not
  set) and the two positional integers.
\<close>

record invocation =
  env_api_key :: "string option"
  start_timestamp :: int
  end_timestamp :: int

text \<open>\<open>all_calls.sort(key=lambda x: x["timestamp"])\<close>: a stable sort on integer keys.\<close>

definition timestamp_key :: "pydict \<Rightarrow> py_error + int" where
  "timestamp_key x =
     (case map_of x ''timestamp'' of
        None \<Rightarrow> Inl (KeyError ''timestamp'')
      | Some (PInt t) \<Rightarrow> Inr t
      | Some v \<Rightarrow> Inl (TypeError ''not supported between instances''))"

fun sort_keys :: "pydict list \<Rightarrow> py_error + (int \<times> pydict) list" where
  "sort_keys [] = Inr []"
| "sort_keys (x # xs) =
     (case timestamp_key x of
        Inl e \<Rightarrow> Inl e
      | Inr t \<Rightarrow> (case sort_keys xs of Inl e \<Rightarrow> Inl e | Inr ys \<Rightarrow> Inr ((t, x) # ys)))"

definition sort_calls :: "pydict list \<Rightarrow> py_error + pydict list" where
  "sort_calls all_calls =
     (case sort_keys all_calls of
        Inl e \<Rightarrow> Inl e
      | Inr keyed \<Rightarrow> Inr (map snd (sort_key fst keyed)))"

text \<open>
  The reporting pass of \<open>main\<close>, after the client exists: both histories, the sort, the
  summary, and then the output (serialising, writing the files, printing), which is the
  parameter \<open>write_report\<close>. The subscription and analytics readers catch every
  exception and only feed the output, so they are part of \<open>write_report\<close>.
  \<open>None\<close> is a run that never returns; \<open>Some (Inl e)\<close> an exception nothing catches.
\<close>

definition report ::
  "client \<Rightarrow> int \<Rightarrow> int \<Rightarrow> (usage_summary \<Rightarrow> pydict list \<Rightarrow> py_error + unit)
     \<Rightarrow> (py_error + unit) option" where
  "report cl start_ms end_ms write_report =
     (case get_speech_history cl start_ms end_ms of
        None \<Rightarrow> None
      | Some speech_history \<Rightarrow>
     (case get_conversation_history cl start_ms end_ms of
        None \<Rightarrow> None
      | Some conversation_history \<Rightarrow>
     (case sort_calls (speech_history @ conversation_history) of
        Inl e \<Rightarrow> Some (Inl e)
      | Inr all_calls \<Rightarrow>
     (case summarize_usage all_calls of
        Inl e \<Rightarrow> Some (Inl e)
      | Inr summary \<Rightarrow> Some (write_report summary all_calls)))))"

text \<open>
  \<open>main\<close> gives the exit status of the process: \<open>sys.exit(1)\<close> and an exception that
  nothing catches both end it with status 1, falling off the end with status 0.
  \<open>ElevenLabs\<close> is the client constructor.
\<close>

definition main ::
  "invocation \<Rightarrow> (string \<Rightarrow> py_error + client)
     \<Rightarrow> (usage_summary \<Rightarrow> pydict list \<Rightarrow> py_error + unit) \<Rightarrow> nat option" where
  "main args ElevenLabs write_report =
     (case env_api_key args of
        None \<Rightarrow> Some 1
      | Some api_key \<Rightarrow>
          if api_key = [] then Some 1
          else
            (let start_ms = normalize_timestamp (start_timestamp args);
                 end_ms = normalize_timestamp (end_timestamp args)
             in if start_ms \<ge> end_ms then Some 1
                else
                  (case format_timestamp start_ms of
                     Inl e \<Rightarrow> Some 1
                   | Inr start_formatted \<Rightarrow>
                  (case format_timestamp end_ms of
                     Inl e \<Rightarrow> Some 1
                   | Inr end_formatted \<Rightarrow>
                  (case ElevenLabs api_key of
                     Inl e \<Rightarrow> Some 1
                   | Inr cl \<Rightarrow>
                       (case report cl start_ms end_ms write_report of
                          None \<Rightarrow> None
                        | Some (Inl e) \<Rightarrow> Some 1
                        | Some (Inr u) \<Rightarrow> Some 0))))))"

section \<open>Specification-side notions\<close>

text \<open>The credits of one record as an integer: \<open>credits_used\<close>, or 0 when absent.\<close>

definition credit_int :: "pydict \<Rightarrow> int" where
  "credit_int call = (case credits_used_of call of PInt c \<Rightarrow> c | _ \<Rightarrow> 0)"

text \<open>
  A breakdown as the specification words it: the records are grouped by a key, and a
  key's entry holds how many records have it and the sum of their credits.
\<close>

definition spec_breakdown :: "(pydict \<Rightarrow> pyval option) \<Rightarrow> pydict list \<Rightarrow> pyval \<Rightarrow> bucket option"
  where
  "spec_breakdown key calls k =
     (let sel = filter (\<lambda>call. key call = Some k) calls
      in if sel = [] then None
         else Some \<lparr>count = int (length sel), credits = sum_list (map credit_int sel)\<rparr>)"

definition type_key :: "pydict \<Rightarrow> pyval option" where
  "type_key call = map_of call ''type''"

text \<open>The key of a speech-generation record under a field whose value is true.\<close>

definition speech_key :: "string \<Rightarrow> pydict \<Rightarrow> pyval option" where
  "speech_key field call =
     (case map_of call field of
        None \<Rightarrow> None
      | Some v \<Rightarrow>
          if map_of call ''type'' = Some (PStr ''speech_generation'') \<and> truthy v
          then Some v else None)"

text \<open>
  Records the aggregator accepts: a hashable \<open>type\<close>, a string \<open>formatted_time\<close>, an
  integer \<open>credits_used\<close> if there is one, and no dictionary under \<open>source\<close> or
  \<open>voice_name\<close>.
\<close>

definition hashable_field :: "string \<Rightarrow> pydict \<Rightarrow> bool" where
  "hashable_field field call =
     (case map_of call field of None \<Rightarrow> True | Some v \<Rightarrow> hashable v)"

definition has_time_string :: "pydict \<Rightarrow> bool" where
  "has_time_string call =
     (case map_of call ''formatted_time'' of Some (PStr f) \<Rightarrow> True | _ \<Rightarrow> False)"

definition well_formed_call :: "pydict \<Rightarrow> bool" where
  "well_formed_call call =
     ((case map_of call ''type'' of None \<Rightarrow> False | Some t \<Rightarrow> hashable t) \<and>
      (case credits_used_of call of PInt c \<Rightarrow> True | _ \<Rightarrow> False) \<and>
      has_time_string call \<and>
      hashable_field ''source'' call \<and> hashable_field ''voice_name'' call)"

text \<open>The formatted-time string of a record (empty when there is none).\<close>

definition time_string :: "pydict \<Rightarrow> string" where
  "time_string call = (case map_of call ''formatted_time'' of Some (PStr f) \<Rightarrow> f | _ \<Rightarrow> [])"

text \<open>Reading an integer or a string field of a record.\<close>

definition int_field :: "pydict \<Rightarrow> string \<Rightarrow> int option" where
  "int_field r k = (case map_of r k of Some (PInt n) \<Rightarrow> Some n | _ \<Rightarrow> None)"

definition str_field :: "pydict \<Rightarrow> string \<Rightarrow> string option" where
  "str_field r k = (case map_of r k of Some (PStr s) \<Rightarrow> Some s | _ \<Rightarrow> None)"

text \<open>A record whose \<open>timestamp_ms\<close> lies in the inclusive window.\<close>

definition in_window :: "int \<Rightarrow> int \<Rightarrow> pydict \<Rightarrow> bool" where
  "in_window start_ms end_ms r =
     (case int_field r ''timestamp_ms'' of
        None \<Rightarrow> False
      | Some t \<Rightarrow> start_ms \<le> t \<and> t \<le> end_ms)"

text \<open>
  A record whose three time fields agree: \<open>timestamp_ms = timestamp * 1000\<close> and
  \<open>formatted_time = format_timestamp(timestamp_ms)\<close>.
\<close>

definition time_consistent :: "pydict \<Rightarrow> bool" where
  "time_consistent r =
     (case int_field r ''timestamp'' of
        None \<Rightarrow> False
      | Some t \<Rightarrow>
          (case int_field r ''timestamp_ms'' of
             None \<Rightarrow> False
           | Some ms \<Rightarrow>
               (case str_field r ''formatted_time'' of
                  None \<Rightarrow> False
                | Some f \<Rightarrow> ms = t * 1000 \<and> format_timestamp ms = Inr f)))"

text \<open>The list a page scan ends with, however it ends.\<close>

fun scan_result :: "page_scan \<Rightarrow> pydict list" where
  "scan_result (Exhausted h) = h"
| "scan_result (Returned h) = h"
| "scan_result (Raised e h) = h"

text \<open>The tokens one transcript entry contributes, and whether it exposes any.\<close>

definition exposes_tokens :: "transcript_item \<Rightarrow> bool" where
  "exposes_tokens t =
     (case llm_usage t of None \<Rightarrow> False | Some u \<Rightarrow> total_tokens u \<noteq> None)"

definition tokens_of :: "transcript_item \<Rightarrow> int" where
  "tokens_of t =
     (case llm_usage t of
        None \<Rightarrow> 0
      | Some u \<Rightarrow> (case total_tokens u of None \<Rightarrow> 0 | Some n \<Rightarrow> n))"

text \<open>A degraded record carries an \<open>error\<close> field; a fully enriched one the token count.\<close>

definition is_degraded :: "pydict \<Rightarrow> bool" where
  "is_degraded r = (map_of r ''error'' \<noteq> None)"

definition is_enriched :: "pydict \<Rightarrow> bool" where
  "is_enriched r = (map_of r ''error'' = None \<and> map_of r ''total_llm_tokens'' \<noteq> None)"

text \<open>Whether the detail fetch of a listed conversation raises.\<close>

definition detail_fetch_fails :: "client \<Rightarrow> conversation \<Rightarrow> bool" where
  "detail_fetch_fails cl c = isl (conversations_get cl (conversation_id c))"

text \<open>
  The records built from the items of a list that lie in the window, in order (an item
  whose record cannot be built gives none).
\<close>

definition window_records :: "int \<Rightarrow> int \<Rightarrow> history_item list \<Rightarrow> pydict list" where
  "window_records start_ms end_ms items =
     concat (map (\<lambda>item. case call_data item (date_unix item * 1000) of
                            Inl e \<Rightarrow> []
                          | Inr d \<Rightarrow> [d])
                 (filter (\<lambda>item. start_ms \<le> date_unix item * 1000 \<and>
                                  date_unix item * 1000 \<le> end_ms) items))"

section \<open>Example inputs\<close>

text \<open>
  The two records of the specification's aggregator example, as written there: neither has
  a \<open>formatted_time\<close>.
\<close>

definition spec_example_calls :: "pydict list" where
  "spec_example_calls =
     [[(''credits_used'', PInt 5), (''type'', PStr ''speech_generation''),
       (''source'', PStr ''api'')],
      [(''credits_used'', PInt 3), (''type'', PStr ''conversational_ai'')]]"

text \<open>
  Four records for the aggregator: two speech generations (the second without credits
  and with an empty source), and two conversations; the times are not in order.
\<close>

definition sample_calls :: "pydict list" where
  "sample_calls =
     [[(''type'', PStr ''speech_generation''), (''formatted_time'', PStr ''2024-03-01 10:00:00 UTC''),
       (''credits_used'', PInt 5), (''source'', PStr ''api''), (''voice_name'', PStr ''Ada'')],
      [(''type'', PStr ''conversational_ai''), (''formatted_time'', PStr ''2024-02-29 23:59:59 UTC''),
       (''credits_used'', PInt 3)],
      [(''type'', PStr ''speech_generation''), (''formatted_time'', PStr ''2024-03-01 09:00:00 UTC''),
       (''source'', PStr []), (''voice_name'', PNone)],
      [(''type'', PStr ''conversational_ai''), (''formatted_time'', PStr ''2024-11-05 00:00:00 UTC''),
       (''credits_used'', PInt 4)]]"

text \<open>
  A scripted speech history. The window is one hour from 1700000000 s. The first page
  has an item newer than the window and one inside it; the second page one inside it
  and then two older ones; a third page, which must never be asked for, would answer
  for ever.
\<close>

definition sample_start_ms :: int where
  "sample_start_ms = 1700000000000"

definition sample_end_ms :: int where
  "sample_end_ms = 1700003600000"

definition sample_item :: "string \<Rightarrow> int \<Rightarrow> history_item" where
  "sample_item ident t =
     \<lparr>history_item_id = ident, date_unix = t,
      character_count_change_from = Some 130, character_count_change_to = Some 100,
      text_of = Some ''hello'', voice_id = Some ''v1'', voice_name = Some ''Ada'',
      voice_category = None, model_id = Some ''m1'', content_type = Some ''audio/mpeg'',
      source = Some ''TTS'', request_id = None, settings = PNone, feedback = None\<rparr>"

definition sample_page1 :: history_response where
  "sample_page1 =
     \<lparr>history = [sample_item ''a'' 1700009999, sample_item ''b'' 1700003000],
      has_more = True, last_history_item_id = Some ''b''\<rparr>"

definition sample_page2 :: history_response where
  "sample_page2 =
     \<lparr>history = [sample_item ''c'' 1700001000, sample_item ''d'' 1699990000,
                 sample_item ''e'' 1699980000],
      has_more = True, last_history_item_id = Some ''e''\<rparr>"

definition sample_page3 :: history_response where
  "sample_page3 =
     \<lparr>history = [sample_item ''z'' 1700002000],
      has_more = True, last_history_item_id = Some ''z''\<rparr>"

definition sample_history_list :: "nat \<Rightarrow> string option \<Rightarrow> py_error + history_response" where
  "sample_history_list n start_after_id =
     (if start_after_id = None then Inr sample_page1
      else if start_after_id = Some ''b'' then Inr sample_page2
      else Inr sample_page3)"

text \<open>
  Three listed conversations on one page. The detail fetch of the second raises; the
  other two have metadata, the first with a cost and, among four transcript entries, two
  that expose tokens; the third has no cost. A fourth conversation, not listed, has a
  detail record without metadata.
\<close>

definition sample_conversation :: "string \<Rightarrow> int \<Rightarrow> conversation" where
  "sample_conversation ident t =
     \<lparr>conversation_id = ident, agent_id = ''agent'', start_time_unix_secs = t,
      call_duration_secs = 60, status = ''done''\<rparr>"

definition sample_metadata :: "int \<Rightarrow> int option \<Rightarrow> conv_metadata" where
  "sample_metadata t c =
     \<lparr>md_start_time_unix_secs = t, md_call_duration_secs = 60, cost = c,
      accepted_time_unix_secs = None, termination_reason = None, main_language = Some ''en'',
      charging = None, phone_call = None, error_of = None\<rparr>"

definition sample_transcript :: "transcript_item list" where
  "sample_transcript =
     [\<lparr>role = ''user'', llm_usage = None\<rparr>,
      \<lparr>role = ''assistant'', llm_usage = Some \<lparr>total_tokens = Some 40\<rparr>\<rparr>,
      \<lparr>role = ''assistant'', llm_usage = Some \<lparr>total_tokens = None\<rparr>\<rparr>,
      \<lparr>role = ''assistant'', llm_usage = Some \<lparr>total_tokens = Some 2\<rparr>\<rparr>]"

definition sample_detail1 :: detailed_conv where
  "sample_detail1 =
     \<lparr>metadata = Some (sample_metadata 1700000100 (Some 7)), transcript = sample_transcript\<rparr>"

definition sample_detail3 :: detailed_conv where
  "sample_detail3 = \<lparr>metadata = Some (sample_metadata 1700000300 None), transcript = []\<rparr>"

definition sample_detail4 :: detailed_conv where
  "sample_detail4 = \<lparr>metadata = None, transcript = []\<rparr>"

definition sample_conversations_get :: "string \<Rightarrow> py_error + detailed_conv" where
  "sample_conversations_get ident =
     (if ident = ''c1'' then Inr sample_detail1
      else if ident = ''c3'' then Inr sample_detail3
      else if ident = ''c4'' then Inr sample_detail4
      else Inl (RemoteError ''boom''))"

definition sample_conversations_page :: conversations_response where
  "sample_conversations_page =
     \<lparr>conversations = [sample_conversation ''c1'' 1700000100,
                       sample_conversation ''c2'' 1700000200,
                       sample_conversation ''c3'' 1700000300],
      cursor = None\<rparr>"

definition sample_client :: client where
  "sample_client =
     \<lparr>history_list = sample_history_list,
      conversations_list = (\<lambda>cur a b n. Inr sample_conversations_page),
      conversations_get = sample_conversations_get\<rparr>"

text \<open>
  The same client, except that the second conversation is listed with a start time in
  the year 11476 (a value in milliseconds where seconds are expected).
\<close>

definition late_conversations_page :: conversations_response where
  "late_conversations_page =
     \<lparr>conversations = [sample_conversation ''c1'' 1700000100,
                       sample_conversation ''c2'' 300000000000,
                       sample_conversation ''c3'' 1700000300],
      cursor = None\<rparr>"

definition late_client :: client where
  "late_client =
     \<lparr>history_list = sample_history_list,
      conversations_list = (\<lambda>cur a b n. Inr late_conversations_page),
      conversations_get = sample_conversations_get\<rparr>"

text \<open>
  Invocations of the program: a key and the sample window in seconds, and the same with
  the variable set to the empty string. The constructor returns the sample client and
  the output step succeeds.
\<close>

definition sample_args :: invocation where
  "sample_args =
     \<lparr>env_api_key = Some ''sk-test-key'', start_timestamp = 1700000000,
      end_timestamp = 1700003600\<rparr>"

definition empty_key_args :: invocation where
  "empty_key_args =
     \<lparr>env_api_key = Some [], start_timestamp = 1700000000, end_timestamp = 1700003600\<rparr>"

definition sample_ElevenLabs :: "string \<Rightarrow> py_error + client" where
  "sample_ElevenLabs api_key = Inr sample_client"

definition sample_write_report :: "usage_summary \<Rightarrow> pydict list \<Rightarrow> py_error + unit" where
  "sample_write_report summary all_calls = Inr ()"

section \<open>The aggregator: auxiliary facts\<close>

lemma sum_credits_wf:
  "list_all well_formed_call calls \<Longrightarrow>
   sum_credits calls a = Inr (a + sum_list (map credit_int calls))"
  by (induction calls arbitrary: a)
     (auto simp: well_formed_call_def credit_int_def split: pyval.splits)

lemma sum_credits_Inr:
  "sum_credits calls a = Inr t \<Longrightarrow> t = a + sum_list (map credit_int calls)"
proof (induction calls arbitrary: a)
  case Nil
  then show ?case by simp
next
  case (Cons call calls)
  from Cons.prems obtain c where c: "credits_used_of call = PInt c"
    and s: "sum_credits calls (a + c) = Inr t"
    by (auto split: pyval.splits)
  from Cons.IH [OF s] c show ?case by (simp add: credit_int_def)
qed

lemma map_of_bucket_add:
  "map_of (bucket_add bks k c) k' =
     (if k' = k
      then Some (case map_of bks k of
                   None \<Rightarrow> \<lparr>count = 1, credits = c\<rparr>
                 | Some b \<Rightarrow> \<lparr>count = count b + 1, credits = credits b + c\<rparr>)
      else map_of bks k')"
  by (induction bks k c rule: bucket_add.induct) auto

lemma count_bucket_add:
  "sum_list (map (\<lambda>kb. count (snd kb)) (bucket_add bks k c)) =
   sum_list (map (\<lambda>kb. count (snd kb)) bks) + 1"
  by (induction bks k c rule: bucket_add.induct) auto

lemma credits_bucket_add:
  "sum_list (map (\<lambda>kb. credits (snd kb)) (bucket_add bks k c)) =
   sum_list (map (\<lambda>kb. credits (snd kb)) bks) + c"
  by (induction bks k c rule: bucket_add.induct) auto

lemma keys_bucket_add:
  "set (map fst (bucket_add bks k c)) = insert k (set (map fst bks))"
  by (induction bks k c rule: bucket_add.induct) auto

lemma distinct_bucket_add:
  "distinct (map fst bks) \<Longrightarrow> distinct (map fst (bucket_add bks k c))"
proof (induction bks k c rule: bucket_add.induct)
  case (1 k c)
  then show ?case by simp
next
  case (2 k' b bs k c)
  then show ?case
    using keys_bucket_add [of bs k c] by auto
qed

lemma add_call_Inr:
  "add_call bks k v = Inr bks' \<Longrightarrow> \<exists>c. v = PInt c \<and> hashable k \<and> bks' = bucket_add bks k c"
  by (auto simp: add_call_def split: if_splits pyval.splits)

lemma spec_breakdown_snoc:
  "spec_breakdown key (pre @ [call]) k =
     (if key call = Some k
      then Some (case spec_breakdown key pre k of
                   None \<Rightarrow> \<lparr>count = 1, credits = credit_int call\<rparr>
                 | Some b \<Rightarrow> \<lparr>count = count b + 1, credits = credits b + credit_int call\<rparr>)
      else spec_breakdown key pre k)"
  by (simp add: spec_breakdown_def Let_def)

lemma spec_breakdown_skip:
  "key call = None \<Longrightarrow> spec_breakdown key (pre @ [call]) = spec_breakdown key pre"
  by (rule ext) (simp add: spec_breakdown_def Let_def)

lemma bucket_add_spec:
  assumes "map_of bks = spec_breakdown key pre" "key call = Some k" "credits_used_of call = PInt c"
  shows "map_of (bucket_add bks k c) = spec_breakdown key (pre @ [call])"
proof
  fix k'
  have "credit_int call = c" using assms(3) by (simp add: credit_int_def)
  then show "map_of (bucket_add bks k c) k' = spec_breakdown key (pre @ [call]) k'"
    using assms(1,2) by (auto simp: map_of_bucket_add spec_breakdown_snoc)
qed

lemma group_by_type_spec:
  "group_by_type calls bks = Inr bks' \<Longrightarrow> map_of bks = spec_breakdown type_key pre \<Longrightarrow>
   map_of bks' = spec_breakdown type_key (pre @ calls)"
proof (induction calls arbitrary: bks pre)
  case Nil
  then show ?case by simp
next
  case (Cons call calls)
  from Cons.prems(1) obtain t bks1 where
    t: "map_of call ''type'' = Some t" and a: "add_call bks t (credits_used_of call) = Inr bks1"
    and g: "group_by_type calls bks1 = Inr bks'"
    by (auto split: option.splits sum.splits)
  from add_call_Inr [OF a] obtain c where c: "credits_used_of call = PInt c" "bks1 = bucket_add bks t c"
    by blast
  have k: "type_key call = Some t" using t by (simp add: type_key_def)
  have "map_of bks1 = spec_breakdown type_key (pre @ [call])"
    unfolding c(2) by (rule bucket_add_spec [OF Cons.prems(2) k c(1)])
  from Cons.IH [OF g this] show ?case by simp
qed

lemma group_speech_by_spec:
  "group_speech_by field calls bks = Inr bks' \<Longrightarrow> map_of bks = spec_breakdown (speech_key field) pre \<Longrightarrow>
   map_of bks' = spec_breakdown (speech_key field) (pre @ calls)"
proof (induction calls arbitrary: bks pre)
  case Nil
  then show ?case by simp
next
  case (Cons call calls)
  from Cons.prems(1) obtain t where t: "map_of call ''type'' = Some t"
    by (auto split: option.splits)
  show ?case
  proof (cases "speech_key field call")
    case None
    then have g: "group_speech_by field calls bks = Inr bks'"
      using Cons.prems(1) t by (auto simp: speech_key_def split: option.splits if_splits)
    have "map_of bks = spec_breakdown (speech_key field) (pre @ [call])"
      using Cons.prems(2) spec_breakdown_skip [of "speech_key field" call pre] None by simp
    from Cons.IH [OF g this] show ?thesis by simp
  next
    case (Some v)
    then have v: "map_of call field = Some v" "t = PStr ''speech_generation''" "truthy v"
      using t by (auto simp: speech_key_def split: option.splits if_splits)
    with Cons.prems(1) t obtain bks1 where
      a: "add_call bks v (credits_used_of call) = Inr bks1"
      and g: "group_speech_by field calls bks1 = Inr bks'"
      by (auto split: sum.splits)
    from add_call_Inr [OF a] obtain c where c: "credits_used_of call = PInt c" "bks1 = bucket_add bks v c"
      by blast
    have "map_of bks1 = spec_breakdown (speech_key field) (pre @ [call])"
      unfolding c(2) by (rule bucket_add_spec [OF Cons.prems(2) Some c(1)])
    from Cons.IH [OF g this] show ?thesis by simp
  qed
qed

lemma spec_breakdown_Nil: "spec_breakdown key [] = map_of []"
  by (rule ext) (simp add: spec_breakdown_def)


lemma group_by_type_sums:
  "group_by_type calls bks = Inr bks' \<Longrightarrow>
   sum_list (map (\<lambda>kb. count (snd kb)) bks') =
     sum_list (map (\<lambda>kb. count (snd kb)) bks) + int (length calls) \<and>
   sum_list (map (\<lambda>kb. credits (snd kb)) bks') =
     sum_list (map (\<lambda>kb. credits (snd kb)) bks) + sum_list (map credit_int calls) \<and>
   (distinct (map fst bks) \<longrightarrow> distinct (map fst bks'))"
proof (induction calls arbitrary: bks)
  case Nil
  then show ?case by simp
next
  case (Cons call calls)
  from Cons.prems obtain t bks1 where
    a: "add_call bks t (credits_used_of call) = Inr bks1"
    and g: "group_by_type calls bks1 = Inr bks'"
    by (auto split: option.splits sum.splits)
  from add_call_Inr [OF a] obtain c where c: "credits_used_of call = PInt c" "bks1 = bucket_add bks t c"
    by blast
  have ci: "credit_int call = c" using c(1) by (simp add: credit_int_def)
  from Cons.IH [OF g] show ?case
    by (simp add: c(2) ci count_bucket_add credits_bucket_add distinct_bucket_add)
qed

lemma group_by_type_wf:
  "list_all well_formed_call calls \<Longrightarrow> \<exists>bks'. group_by_type calls bks = Inr bks'"
proof (induction calls arbitrary: bks)
  case Nil
  then show ?case by simp
next
  case (Cons call calls)
  then obtain t c where "map_of call ''type'' = Some t" "hashable t" "credits_used_of call = PInt c"
    by (auto simp: well_formed_call_def split: option.splits pyval.splits)
  moreover from Cons have "\<exists>bks'. group_by_type calls (bucket_add bks t c) = Inr bks'"
    by simp
  ultimately show ?case by (simp add: add_call_def)
qed

lemma group_speech_by_wf:
  "list_all well_formed_call calls \<Longrightarrow> list_all (hashable_field field) calls \<Longrightarrow>
   \<exists>bks'. group_speech_by field calls bks = Inr bks'"
proof (induction calls arbitrary: bks)
  case Nil
  then show ?case by simp
next
  case (Cons call calls)
  then obtain t c where t: "map_of call ''type'' = Some t" and c: "credits_used_of call = PInt c"
    by (auto simp: well_formed_call_def split: option.splits pyval.splits)
  from Cons have ih: "\<And>bks. \<exists>bks'. group_speech_by field calls bks = Inr bks'"
    by simp
  show ?case
  proof (cases "map_of call field")
    case None
    with t ih show ?thesis by simp
  next
    case (Some v)
    with Cons.prems(2) have "hashable v" by (simp add: hashable_field_def)
    with t c Some ih [of bks] ih [of "bucket_add bks v c"] show ?thesis
      by (simp add: add_call_def)
  qed
qed

lemma min_formatted_strings:
  "list_all has_time_string calls \<Longrightarrow>
   min_formatted calls (PStr m) = Inr (PStr (fold min (map time_string calls) m))"
proof (induction calls arbitrary: m)
  case Nil
  then show ?case by simp
next
  case (Cons call calls)
  then obtain f where f: "map_of call ''formatted_time'' = Some (PStr f)"
    by (auto simp: has_time_string_def split: option.splits pyval.splits)
  then have ts: "time_string call = f" by (simp add: time_string_def)
  have "(if f < m then f else m) = min f m" by (auto simp: min_def)
  with Cons f ts show ?case by (simp add: formatted_time_of_def)
qed

lemma max_formatted_strings:
  "list_all has_time_string calls \<Longrightarrow>
   max_formatted calls (PStr m) = Inr (PStr (fold max (map time_string calls) m))"
proof (induction calls arbitrary: m)
  case Nil
  then show ?case by simp
next
  case (Cons call calls)
  then obtain f where f: "map_of call ''formatted_time'' = Some (PStr f)"
    by (auto simp: has_time_string_def split: option.splits pyval.splits)
  then have ts: "time_string call = f" by (simp add: time_string_def)
  have "(if m < f then f else m) = max f m" by (auto simp: max_def)
  with Cons f ts show ?case by (simp add: formatted_time_of_def)
qed

lemma earliest_of_strings:
  assumes "all_calls \<noteq> []" "list_all has_time_string all_calls"
  shows "earliest_of all_calls = Inr (PStr (Min (set (map time_string all_calls))))"
proof -
  from assms(1) obtain call calls where l: "all_calls = call # calls" by (cases all_calls) auto
  with assms(2) obtain f where f: "map_of call ''formatted_time'' = Some (PStr f)"
    by (auto simp: has_time_string_def split: option.splits pyval.splits)
  then have ts: "time_string call = f" by (simp add: time_string_def)
  have "Min (set (f # map time_string calls)) = fold min (map time_string calls) f"
    by (rule Min.set_eq_fold)
  with l f ts assms(2) show ?thesis
    by (simp add: earliest_of_def formatted_time_of_def min_formatted_strings)
qed

lemma latest_of_strings:
  assumes "all_calls \<noteq> []" "list_all has_time_string all_calls"
  shows "latest_of all_calls = Inr (PStr (Max (set (map time_string all_calls))))"
proof -
  from assms(1) obtain call calls where l: "all_calls = call # calls" by (cases all_calls) auto
  with assms(2) obtain f where f: "map_of call ''formatted_time'' = Some (PStr f)"
    by (auto simp: has_time_string_def split: option.splits pyval.splits)
  then have ts: "time_string call = f" by (simp add: time_string_def)
  have "Max (set (f # map time_string calls)) = fold max (map time_string calls) f"
    by (rule Max.set_eq_fold)
  with l f ts assms(2) show ?thesis
    by (simp add: latest_of_def formatted_time_of_def max_formatted_strings)
qed

lemma earliest_of_returns:
  "list_all has_time_string all_calls \<Longrightarrow> \<exists>v. earliest_of all_calls = Inr v"
  using earliest_of_strings [of all_calls] by (cases "all_calls = []") (auto simp: earliest_of_def)

lemma latest_of_returns:
  "list_all has_time_string all_calls \<Longrightarrow> \<exists>v. latest_of all_calls = Inr v"
  using latest_of_strings [of all_calls] by (cases "all_calls = []") (auto simp: latest_of_def)

lemma summarize_usage_parts:
  "summarize_usage all_calls = Inr s \<Longrightarrow>
   sum_credits all_calls 0 = Inr (total_credits_used s) \<and>
   group_by_type all_calls [] = Inr (breakdown_by_type s) \<and>
   group_speech_by ''source'' all_calls [] = Inr (breakdown_by_source s) \<and>
   group_speech_by ''voice_name'' all_calls [] = Inr (breakdown_by_voice s) \<and>
   earliest_of all_calls = Inr (earliest_call s) \<and>
   latest_of all_calls = Inr (latest_call s) \<and>
   total_api_calls s = int (length all_calls)"
  by (auto simp: summarize_usage_def split: sum.splits)

lemma well_formed_parts:
  "list_all well_formed_call calls \<Longrightarrow>
   list_all has_time_string calls \<and> list_all (hashable_field ''source'') calls \<and>
   list_all (hashable_field ''voice_name'') calls"
  by (induction calls) (auto simp: well_formed_call_def)

lemma summarize_usage_returns:
  assumes "list_all well_formed_call all_calls"
  shows "\<exists>s. summarize_usage all_calls = Inr s"
proof -
  note p = well_formed_parts [OF assms]
  obtain t where t: "sum_credits all_calls 0 = Inr t"
    using sum_credits_wf [OF assms, of 0] by blast
  obtain bt where bt: "group_by_type all_calls [] = Inr bt"
    using group_by_type_wf [OF assms, of "[]"] by blast
  obtain bs where bs: "group_speech_by ''source'' all_calls [] = Inr bs"
    using group_speech_by_wf [OF assms, of "''source''" "[]"] p by blast
  obtain bv where bv: "group_speech_by ''voice_name'' all_calls [] = Inr bv"
    using group_speech_by_wf [OF assms, of "''voice_name''" "[]"] p by blast
  obtain e where e: "earliest_of all_calls = Inr e"
    using earliest_of_returns p by blast
  obtain l where l: "latest_of all_calls = Inr l"
    using latest_of_returns p by blast
  show ?thesis by (simp add: summarize_usage_def t bt bs bv e l)
qed

lemma sample_calls_well_formed: "list_all well_formed_call sample_calls"
  by (simp add: sample_calls_def well_formed_call_def credits_used_of_def
        has_time_string_def hashable_field_def)

section \<open>The fetchers: auxiliary facts\<close>

lemma call_data_fields:
  assumes "call_data item t = Inr d"
  shows "int_field d ''timestamp'' = Some (date_unix item) \<and>
         int_field d ''timestamp_ms'' = Some t \<and>
         (\<exists>f. format_timestamp t = Inr f \<and> str_field d ''formatted_time'' = Some f)"
  using assms
  by (auto simp: call_data_def int_field_def str_field_def Let_def
           split: sum.splits option.splits)

lemma scan_page_append:
  "scan_page s e (pre @ rest) acc =
     (case scan_page s e pre acc of
        Exhausted h \<Rightarrow> scan_page s e rest h
      | Returned h \<Rightarrow> Returned h
      | Raised err h \<Rightarrow> Raised err h)"
  by (induction pre arbitrary: acc) (auto simp: Let_def split: sum.splits)

lemma scan_page_origin:
  "r \<in> set (scan_result (scan_page s e items acc)) \<Longrightarrow>
   r \<in> set acc \<or>
   (\<exists>item \<in> set items. s \<le> date_unix item * 1000 \<and> date_unix item * 1000 \<le> e \<and>
        call_data item (date_unix item * 1000) = Inr r)"
proof (induction items arbitrary: acc)
  case Nil
  then show ?case by simp
next
  case (Cons item items)
  show ?case
  proof (cases "s \<le> date_unix item * 1000 \<and> date_unix item * 1000 \<le> e")
    case True
    show ?thesis
    proof (cases "call_data item (date_unix item * 1000)")
      case (Inl err)
      with True Cons.prems show ?thesis by (simp add: Let_def)
    next
      case (Inr d)
      with True Cons.prems
      have "r \<in> set (scan_result (scan_page s e items (acc @ [d])))" by (simp add: Let_def)
      from Cons.IH [OF this] True Inr show ?thesis by auto
    qed
  next
    case False
    with Cons.prems have "r \<in> set acc \<or> r \<in> set (scan_result (scan_page s e items acc))"
      by (auto simp: Let_def split: if_splits)
    with Cons.IH [of acc] show ?thesis by auto
  qed
qed

lemma history_loop_origin:
  assumes ret: "history_loop cl s e after acc = Some rs"
  shows "\<forall>r \<in> set rs. r \<in> set acc \<or>
      (\<exists>item. s \<le> date_unix item * 1000 \<and> date_unix item * 1000 \<le> e \<and>
         call_data item (date_unix item * 1000) = Inr r)"
proof (rule history_loop.raw_induct
    [where P = "\<lambda>cl s e after acc rs. \<forall>r \<in> set rs. r \<in> set acc \<or>
      (\<exists>item. s \<le> date_unix item * 1000 \<and> date_unix item * 1000 \<le> e \<and>
         call_data item (date_unix item * 1000) = Inr r)", OF _ ret])
  fix loop cl s e after acc rs
  assume IH: "\<And>cl s e after acc rs. loop cl s e after acc = Some rs \<Longrightarrow>
      \<forall>r \<in> set rs. r \<in> set acc \<or>
      (\<exists>item. s \<le> date_unix item * 1000 \<and> date_unix item * 1000 \<le> e \<and>
         call_data item (date_unix item * 1000) = Inr r)"
    and body: "(case history_list cl page_size_history after of
        Inl e \<Rightarrow> Some acc
      | Inr response \<Rightarrow>
          if history response = [] then Some acc
          else
            (case scan_page s e (history response) acc of
               Exhausted h \<Rightarrow>
                 if \<not> has_more response then Some h
                 else loop cl s e (last_history_item_id response) h
             | Returned h \<Rightarrow> Some h
             | Raised e h \<Rightarrow> Some h)) = Some rs"
  show "\<forall>r \<in> set rs. r \<in> set acc \<or>
      (\<exists>item. s \<le> date_unix item * 1000 \<and> date_unix item * 1000 \<le> e \<and>
         call_data item (date_unix item * 1000) = Inr r)"
  proof (cases "history_list cl page_size_history after")
    case (Inl err)
    with body show ?thesis by simp
  next
    case (Inr response)
    show ?thesis
    proof (cases "history response = []")
      case True
      with body Inr show ?thesis by simp
    next
      case False
      have org: "\<And>r. r \<in> set (scan_result (scan_page s e (history response) acc)) \<Longrightarrow>
         r \<in> set acc \<or>
         (\<exists>item. s \<le> date_unix item * 1000 \<and> date_unix item * 1000 \<le> e \<and>
            call_data item (date_unix item * 1000) = Inr r)"
        using scan_page_origin [of _ s e "history response" acc] by blast
      show ?thesis
      proof (cases "scan_page s e (history response) acc")
        case (Exhausted h)
        show ?thesis
        proof (cases "has_more response")
          case True
          with body Inr False Exhausted
          have "loop cl s e (last_history_item_id response) h = Some rs" by simp
          from IH [OF this] org Exhausted show ?thesis by fastforce
        next
          case no: False
          with body Inr False Exhausted have "rs = h" by simp
          with org Exhausted show ?thesis by auto
        qed
      next
        case (Returned h)
        with body Inr False have "rs = h" by simp
        with org Returned show ?thesis by auto
      next
        case (Raised err h)
        with body Inr False have "rs = h" by simp
        with org Raised show ?thesis by auto
      qed
    qed
  qed
qed

lemma scan_page_not_older:
  "\<forall>item \<in> set pre. s \<le> date_unix item * 1000 \<Longrightarrow>
   \<forall>item \<in> set pre. date_unix item * 1000 \<le> e \<longrightarrow>
      \<not> isl (call_data item (date_unix item * 1000)) \<Longrightarrow>
   scan_page s e pre acc = Exhausted (acc @ window_records s e pre)"
proof (induction pre arbitrary: acc)
  case Nil
  then show ?case by (simp add: window_records_def)
next
  case (Cons item pre)
  show ?case
  proof (cases "date_unix item * 1000 \<le> e")
    case True
    with Cons.prems obtain d where d: "call_data item (date_unix item * 1000) = Inr d"
      by (cases "call_data item (date_unix item * 1000)") auto
    have "scan_page s e (item # pre) acc = scan_page s e pre (acc @ [d])"
      using Cons.prems(1) True d by (simp add: Let_def)
    also have "\<dots> = Exhausted ((acc @ [d]) @ window_records s e pre)"
      using Cons.prems by (intro Cons.IH) auto
    also have "(acc @ [d]) @ window_records s e pre = acc @ window_records s e (item # pre)"
      using Cons.prems(1) True d by (simp add: window_records_def)
    finally show ?thesis .
  next
    case False
    have "scan_page s e (item # pre) acc = scan_page s e pre acc"
      using Cons.prems(1) False by (simp add: Let_def)
    also have "\<dots> = Exhausted (acc @ window_records s e pre)"
      using Cons.prems by (intro Cons.IH) auto
    also have "window_records s e pre = window_records s e (item # pre)"
      using False by (simp add: window_records_def)
    finally show ?thesis .
  qed
qed

lemma window_records_in_window:
  "r \<in> set (window_records s e items) \<Longrightarrow> in_window s e r"
proof -
  assume "r \<in> set (window_records s e items)"
  then obtain item where "s \<le> date_unix item * 1000" "date_unix item * 1000 \<le> e"
    "call_data item (date_unix item * 1000) = Inr r"
    by (auto simp: window_records_def split: sum.splits)
  with call_data_fields [of item "date_unix item * 1000" r]
  show "in_window s e r" by (simp add: in_window_def)
qed

lemma history_loop_returned:
  assumes "history_list cl page_size_history after = Inr response"
    and "scan_page s e (history response) acc = Returned h"
  shows "history_loop cl s e after acc = Some h"
proof -
  from assms(2) have "history response \<noteq> []" by (cases "history response") auto
  with assms show ?thesis by (subst history_loop.simps) simp
qed

lemma sorted_rest_older:
  assumes "sorted_wrt (\<lambda>a b. date_unix b < date_unix a) (pre @ old # rest)"
    and "date_unix old * 1000 < s"
  shows "\<forall>item \<in> set rest. date_unix item * 1000 < s"
  using assms by (auto simp: sorted_wrt_append)

lemma get_speech_history_origin:
  assumes "get_speech_history cl s e = Some rs" and "r \<in> set rs"
  shows "\<exists>item. s \<le> date_unix item * 1000 \<and> date_unix item * 1000 \<le> e \<and>
            call_data item (date_unix item * 1000) = Inr r"
  using history_loop_origin [of cl s e None "[]" rs] assms
  by (simp add: get_speech_history_def)

lemma sum_llm_tokens_eq:
  "sum_llm_tokens ts a = a + sum_list (map tokens_of ts)"
  by (induction ts arbitrary: a) (auto simp: tokens_of_def split: option.splits)

lemma tokens_of_filter:
  "sum_list (map tokens_of (filter exposes_tokens ts)) = sum_list (map tokens_of ts)"
  by (induction ts) (auto simp: tokens_of_def exposes_tokens_def split: option.splits)

lemma conv_data_fields:
  assumes "conv_data c detailed = Inr r"
  shows "\<exists>md. metadata detailed = Some md \<and>
           int_field r ''timestamp'' = Some (md_start_time_unix_secs md) \<and>
           int_field r ''timestamp_ms'' = Some (md_start_time_unix_secs md * 1000) \<and>
           (\<exists>f. format_timestamp (md_start_time_unix_secs md * 1000) = Inr f \<and>
                str_field r ''formatted_time'' = Some f) \<and>
           map_of r ''credits_used'' = Some (PInt (total_cost_of md)) \<and>
           map_of r ''total_llm_tokens'' = Some (PInt (sum_llm_tokens (transcript detailed) 0)) \<and>
           map_of r ''error'' = None \<and>
           map_of r ''id'' = Some (PStr (conversation_id c))"
  using assms
  by (auto simp: conv_data_def int_field_def str_field_def Let_def
           split: sum.splits option.splits)

lemma degraded_conv_data_fields:
  assumes "degraded_conv_data c e = Inr r"
  shows "int_field r ''timestamp'' = Some (start_time_unix_secs c) \<and>
         int_field r ''timestamp_ms'' = Some (start_time_unix_secs c * 1000) \<and>
         (\<exists>f. format_timestamp (start_time_unix_secs c * 1000) = Inr f \<and>
              str_field r ''formatted_time'' = Some f) \<and>
         map_of r ''credits_used'' = Some (PInt 0) \<and>
         map_of r ''total_llm_tokens'' = None \<and>
         map_of r ''error'' = Some (PStr (''Could not fetch detailed data: '' @ error_str e)) \<and>
         map_of r ''id'' = Some (PStr (conversation_id c))"
  using assms
  by (auto simp: degraded_conv_data_def int_field_def str_field_def split: sum.splits)

lemma degraded_conv_data_returns:
  "\<not> isl (format_timestamp (start_time_unix_secs c * 1000)) \<Longrightarrow>
   \<exists>r. degraded_conv_data c e = Inr r"
  by (cases "format_timestamp (start_time_unix_secs c * 1000)")
     (auto simp: degraded_conv_data_def)

lemma call_data_time_consistent: "call_data item (date_unix item * 1000) = Inr r \<Longrightarrow> time_consistent r"
  using call_data_fields [of item "date_unix item * 1000" r]
  by (auto simp: time_consistent_def)

lemma conv_data_time_consistent: "conv_data c detailed = Inr r \<Longrightarrow> time_consistent r"
  using conv_data_fields [of c detailed r]
  by (auto simp: time_consistent_def)

lemma degraded_time_consistent: "degraded_conv_data c e = Inr r \<Longrightarrow> time_consistent r"
  using degraded_conv_data_fields [of c e r]
  by (auto simp: time_consistent_def)

lemma process_conversations_origin:
  "process_conversations cl cs acc = Inr rs \<Longrightarrow>
   \<forall>r \<in> set rs. r \<in> set acc \<or> (\<exists>c d. conv_data c d = Inr r) \<or>
      (\<exists>c e. degraded_conv_data c e = Inr r)"
proof (induction cs arbitrary: acc)
  case Nil
  then show ?case by simp
next
  case (Cons c cs)
  show ?case
  proof (cases "fetch_and_enrich cl c")
    case (Inr d)
    then obtain detailed where "conv_data c detailed = Inr d"
      by (auto simp: fetch_and_enrich_def split: sum.splits)
    moreover from Cons.prems Inr have "process_conversations cl cs (acc @ [d]) = Inr rs"
      by simp
    from Cons.IH [OF this] have "\<forall>r \<in> set rs. r \<in> set (acc @ [d]) \<or>
      (\<exists>c d. conv_data c d = Inr r) \<or> (\<exists>c e. degraded_conv_data c e = Inr r)" .
    ultimately show ?thesis by (metis Un_iff empty_iff empty_set set_ConsD set_append)
  next
    case (Inl e)
    with Cons.prems obtain d where d: "degraded_conv_data c e = Inr d"
      and "process_conversations cl cs (acc @ [d]) = Inr rs"
      by (auto split: sum.splits)
    from Cons.IH [OF this(2)] have "\<forall>r \<in> set rs. r \<in> set (acc @ [d]) \<or>
      (\<exists>c d. conv_data c d = Inr r) \<or> (\<exists>c e. degraded_conv_data c e = Inr r)" .
    with d show ?thesis by (metis Un_iff empty_iff empty_set set_ConsD set_append)
  qed
qed

lemma conversations_loop_origin:
  assumes ret: "conversations_loop cl a b cur acc = Some res"
  shows "\<forall>rs. res = Inr rs \<longrightarrow>
      (\<forall>r \<in> set rs. r \<in> set acc \<or> (\<exists>c d. conv_data c d = Inr r) \<or>
         (\<exists>c e. degraded_conv_data c e = Inr r))"
proof (rule conversations_loop.raw_induct
    [where P = "\<lambda>cl a b cur acc res. \<forall>rs. res = Inr rs \<longrightarrow>
      (\<forall>r \<in> set rs. r \<in> set acc \<or> (\<exists>c d. conv_data c d = Inr r) \<or>
         (\<exists>c e. degraded_conv_data c e = Inr r))", OF _ ret])
  fix loop cl a b cur acc res
  assume IH: "\<And>cl a b cur acc res. loop cl a b cur acc = Some res \<Longrightarrow>
      \<forall>rs. res = Inr rs \<longrightarrow>
      (\<forall>r \<in> set rs. r \<in> set acc \<or> (\<exists>c d. conv_data c d = Inr r) \<or>
         (\<exists>c e. degraded_conv_data c e = Inr r))"
    and body: "(case conversations_list cl cur a b page_size_conversations of
        Inl e \<Rightarrow> Some (Inl e)
      | Inr response \<Rightarrow>
          if conversations response = [] then Some (Inr acc)
          else
            (case process_conversations cl (conversations response) acc of
               Inl e \<Rightarrow> Some (Inl e)
             | Inr all' \<Rightarrow>
                 (case cursor response of
                    None \<Rightarrow> Some (Inr all')
                  | Some next_cursor \<Rightarrow>
                      if next_cursor = [] then Some (Inr all')
                      else loop cl a b (Some next_cursor) all'))) = Some res"
  show "\<forall>rs. res = Inr rs \<longrightarrow>
      (\<forall>r \<in> set rs. r \<in> set acc \<or> (\<exists>c d. conv_data c d = Inr r) \<or>
         (\<exists>c e. degraded_conv_data c e = Inr r))"
  proof (intro allI impI)
    fix rs
    assume res: "res = Inr rs"
    show "\<forall>r \<in> set rs. r \<in> set acc \<or> (\<exists>c d. conv_data c d = Inr r) \<or>
         (\<exists>c e. degraded_conv_data c e = Inr r)"
    proof (cases "conversations_list cl cur a b page_size_conversations")
      case (Inl err)
      with body res show ?thesis by simp
    next
      case (Inr response)
      show ?thesis
      proof (cases "conversations response = []")
        case True
        with body res Inr show ?thesis by simp
      next
        case False
        show ?thesis
        proof (cases "process_conversations cl (conversations response) acc")
          case (Inl err)
          with body res Inr False show ?thesis by simp
        next
          case pc: (Inr all')
          note org = process_conversations_origin [OF pc]
          show ?thesis
          proof (cases "\<exists>k. cursor response = Some k \<and> k \<noteq> []")
            case True
            then obtain k where k: "cursor response = Some k" "k \<noteq> []" by blast
            with body Inr False pc have "loop cl a b (Some k) all' = Some res" by simp
            from IH [OF this] res org show ?thesis by fastforce
          next
            case no: False
            with body Inr False pc res have "rs = all'"
              by (auto split: option.splits if_splits)
            with org show ?thesis by simp
          qed
        qed
      qed
    qed
  qed
qed

lemma get_conversation_history_origin:
  assumes "get_conversation_history cl s e = Some rs" and "r \<in> set rs"
  shows "(\<exists>c d. conv_data c d = Inr r) \<or> (\<exists>c e. degraded_conv_data c e = Inr r)"
proof (cases "conversations_loop cl (s div 1000) (e div 1000) None []")
  case None
  with assms show ?thesis by (simp add: get_conversation_history_def)
next
  case (Some res)
  show ?thesis
  proof (cases res)
    case (Inl err)
    with Some assms show ?thesis by (simp add: get_conversation_history_def)
  next
    case (Inr rs')
    with Some assms have "rs' = rs" by (simp add: get_conversation_history_def)
    with conversations_loop_origin [OF Some] Inr assms(2) show ?thesis by auto
  qed
qed

lemma conversation_step:
  assumes "\<not> detail_fetch_fails cl c \<longrightarrow> \<not> isl (fetch_and_enrich cl c)"
    and "detail_fetch_fails cl c \<longrightarrow> \<not> isl (format_timestamp (start_time_unix_secs c * 1000))"
  shows "\<exists>r. (\<forall>cs acc. process_conversations cl (c # cs) acc =
                 process_conversations cl cs (acc @ [r])) \<and>
             map_of r ''id'' = Some (PStr (conversation_id c)) \<and>
             is_degraded r = detail_fetch_fails cl c \<and>
             is_enriched r = (\<not> detail_fetch_fails cl c)"
proof (cases "detail_fetch_fails cl c")
  case True
  then obtain e where e: "conversations_get cl (conversation_id c) = Inl e"
    by (cases "conversations_get cl (conversation_id c)") (auto simp: detail_fetch_fails_def)
  then have f: "fetch_and_enrich cl c = Inl e" by (simp add: fetch_and_enrich_def)
  from True assms(2) degraded_conv_data_returns [of c e]
  obtain r where r: "degraded_conv_data c e = Inr r" by blast
  from degraded_conv_data_fields [OF r] f r True show ?thesis
    by (intro exI [of _ r]) (simp add: is_degraded_def is_enriched_def)
next
  case False
  with assms(1) obtain r where f: "fetch_and_enrich cl c = Inr r"
    by (cases "fetch_and_enrich cl c") auto
  then obtain detailed where "conv_data c detailed = Inr r"
    by (auto simp: fetch_and_enrich_def split: sum.splits)
  from conv_data_fields [OF this] f False show ?thesis
    by (intro exI [of _ r]) (auto simp: is_degraded_def is_enriched_def)
qed

lemma conversations_loop_page:
  assumes "conversations_list cl cur a b page_size_conversations = Inr response"
    and "conversations response \<noteq> []"
    and "process_conversations cl (conversations response) acc = Inr all'"
  shows "conversations_loop cl a b cur acc =
     (case cursor response of
        None \<Rightarrow> Some (Inr all')
      | Some k \<Rightarrow> if k = [] then Some (Inr all') else conversations_loop cl a b (Some k) all')"
  by (subst conversations_loop.simps) (simp add: assms)

section \<open>The examples evaluated\<close>

lemma sample_item_c_builds:
  "\<not> isl (call_data (sample_item ''c'' 1700001000) 1700001000000)"
  by code_simp

lemma sample_window_records_c:
  "map (\<lambda>r. map_of r ''id'')
     (window_records sample_start_ms sample_end_ms [sample_item ''c'' 1700001000]) =
   [Some (PStr ''c'')]"
  by code_simp

lemma sample_speech_history_returns:
  "get_speech_history sample_client sample_start_ms sample_end_ms \<noteq> None \<and>
   map (\<lambda>r. int_field r ''timestamp_ms'')
     (the (get_speech_history sample_client sample_start_ms sample_end_ms)) =
   [Some 1700003000000, Some 1700001000000]"
  by code_simp

lemma sample_conversation_history_returns:
  "get_conversation_history sample_client sample_start_ms sample_end_ms \<noteq> None \<and>
   map (\<lambda>r. map_of r ''id'')
     (the (get_conversation_history sample_client sample_start_ms sample_end_ms)) =
   [Some (PStr ''c1''), Some (PStr ''c2''), Some (PStr ''c3'')]"
  by code_simp

lemma sample_records_build:
  "\<not> isl (call_data (sample_item ''c'' 1700001000)
           (date_unix (sample_item ''c'' 1700001000) * 1000)) \<and>
   \<not> isl (conv_data (sample_conversation ''c1'' 1700000100) sample_detail1) \<and>
   \<not> isl (degraded_conv_data (sample_conversation ''c2'' 1700000200) (RemoteError ''boom''))"
  by code_simp

lemma sample_conv_data1:
  "\<not> isl (conv_data (sample_conversation ''c1'' 1700000100) sample_detail1) \<and>
   \<not> isl (conv_data (sample_conversation ''c3'' 1700000300) sample_detail3) \<and>
   \<not> isl (process_conversations sample_client [sample_conversation ''c4'' 1700000400] [])"
  by code_simp

lemma sample_tokens:
  "sum_list (map tokens_of (filter exposes_tokens (transcript sample_detail1))) = 42 \<and>
   length (filter exposes_tokens (transcript sample_detail1)) = 2 \<and>
   length (transcript sample_detail1) = 4 \<and>
   sum_list (map tokens_of (filter exposes_tokens (transcript sample_detail3))) = 0"
  by code_simp

lemma sample_main_facts:
  "\<not> isl (format_timestamp (normalize_timestamp (start_timestamp sample_args))) \<and>
   \<not> isl (format_timestamp (normalize_timestamp (end_timestamp sample_args))) \<and>
   report sample_client (normalize_timestamp (start_timestamp sample_args))
     (normalize_timestamp (end_timestamp sample_args)) sample_write_report = Some (Inr ())"
  by code_simp

section \<open>Claims about the timestamp normalizer\<close>

text \<open>
  Claim C3. For every integer timestamp \<open>t\<close>, \<open>normalize_timestamp t\<close> is \<open>t * 1000\<close>
  when \<open>t < 32503680000\<close> and \<open>t\<close> otherwise; so on values at or above the threshold
  normalizing twice is the same as normalizing once.
\<close>

theorem normalize_timestamp_threshold:
  "normalize_timestamp t = (if t < 32503680000 then t * 1000 else t) \<and>
   (32503680000 \<le> t \<longrightarrow> normalize_timestamp (normalize_timestamp t) = normalize_timestamp t)"
  by (simp add: normalize_timestamp_def)

text \<open>
  Witness for C3: a millisecond value above the threshold is left alone, twice; a second
  value below it is multiplied once.
\<close>

theorem normalize_timestamp_threshold_witness:
  "(32503680000::int) \<le> 1700000000000 \<and>
   normalize_timestamp (normalize_timestamp 1700000000000) = normalize_timestamp 1700000000000 \<and>
   normalize_timestamp 1700000000000 = 1700000000000 \<and>
   normalize_timestamp 1700000000 = 1700000000000"
  using normalize_timestamp_threshold [of 1700000000000]
    normalize_timestamp_threshold [of 1700000000]
  by simp

section \<open>Claims about the aggregator\<close>

text \<open>
  Claim C2, as stated, at the input it names: the two records
  \<open>{credits_used: 5, type: "speech_generation", source: "api"}\<close> and
  \<open>{credits_used: 3, type: "conversational_ai"}\<close>. The aggregator does not return a
  summary there: computing the time range reads \<open>call["formatted_time"]\<close>, which
  neither record has, and raises \<open>KeyError\<close>.
\<close>

theorem summarize_usage_spec_example_raises:
  "summarize_usage spec_example_calls = Inl (KeyError ''formatted_time'')"
  by (simp add: spec_example_calls_def summarize_usage_def credits_used_of_def add_call_def
        earliest_of_def formatted_time_of_def)

text \<open>
  Claim C2, amended. For every list of records that each have a hashable \<open>type\<close>, a
  string \<open>formatted_time\<close>, an integer \<open>credits_used\<close> if any, and no dictionary as
  \<open>source\<close> or \<open>voice_name\<close>, the aggregator returns a summary in which
  \<open>total_credits_used\<close> is the sum of the records' credits (0 where absent), \<open>by_type\<close>
  holds per type the number of records and the sum of their credits, and \<open>by_source\<close>
  the same over the speech-generation records whose source is true (neither absent,
  \<open>None\<close> nor empty). On the two records of the example, each completed with any
  \<open>formatted_time\<close> string, the total is 8, \<open>by_type\<close> is
  \<open>{"speech_generation": {count: 1, credits: 5}, "conversational_ai": {count: 1, credits: 3}}\<close>
  and \<open>by_source\<close> is \<open>{"api": {count: 1, credits: 5}}\<close>.
\<close>

theorem summarize_usage_totals_and_breakdowns:
  "(list_all well_formed_call all_calls \<longrightarrow>
      (\<exists>s. summarize_usage all_calls = Inr s \<and>
           total_credits_used s = sum_list (map credit_int all_calls) \<and>
           map_of (breakdown_by_type s) = spec_breakdown type_key all_calls \<and>
           map_of (breakdown_by_source s) = spec_breakdown (speech_key ''source'') all_calls)) \<and>
   (\<exists>s. summarize_usage
           [[(''credits_used'', PInt 5), (''type'', PStr ''speech_generation''),
             (''source'', PStr ''api''), (''formatted_time'', PStr f1)],
            [(''credits_used'', PInt 3), (''type'', PStr ''conversational_ai''),
             (''formatted_time'', PStr f2)]] = Inr s \<and>
         total_credits_used s = 8 \<and>
         breakdown_by_type s =
           [(PStr ''speech_generation'', \<lparr>count = 1, credits = 5\<rparr>),
            (PStr ''conversational_ai'', \<lparr>count = 1, credits = 3\<rparr>)] \<and>
         breakdown_by_source s = [(PStr ''api'', \<lparr>count = 1, credits = 5\<rparr>)])"
proof (intro conjI impI)
  assume wf: "list_all well_formed_call all_calls"
  from summarize_usage_returns [OF wf] obtain s where s: "summarize_usage all_calls = Inr s" ..
  note p = summarize_usage_parts [OF s]
  have "total_credits_used s = sum_list (map credit_int all_calls)"
    using sum_credits_Inr [of all_calls 0] p by simp
  moreover have "map_of (breakdown_by_type s) = spec_breakdown type_key all_calls"
    using group_by_type_spec [of all_calls "[]" "breakdown_by_type s" "[]"] p
    by (simp add: spec_breakdown_Nil)
  moreover have "map_of (breakdown_by_source s) = spec_breakdown (speech_key ''source'') all_calls"
    using group_speech_by_spec [of "''source''" all_calls "[]" "breakdown_by_source s" "[]"] p
    by (simp add: spec_breakdown_Nil)
  ultimately show "\<exists>s. summarize_usage all_calls = Inr s \<and>
           total_credits_used s = sum_list (map credit_int all_calls) \<and>
           map_of (breakdown_by_type s) = spec_breakdown type_key all_calls \<and>
           map_of (breakdown_by_source s) = spec_breakdown (speech_key ''source'') all_calls"
    using s by blast
next
  show "\<exists>s. summarize_usage
           [[(''credits_used'', PInt 5), (''type'', PStr ''speech_generation''),
             (''source'', PStr ''api''), (''formatted_time'', PStr f1)],
            [(''credits_used'', PInt 3), (''type'', PStr ''conversational_ai''),
             (''formatted_time'', PStr f2)]] = Inr s \<and>
         total_credits_used s = 8 \<and>
         breakdown_by_type s =
           [(PStr ''speech_generation'', \<lparr>count = 1, credits = 5\<rparr>),
            (PStr ''conversational_ai'', \<lparr>count = 1, credits = 3\<rparr>)] \<and>
         breakdown_by_source s = [(PStr ''api'', \<lparr>count = 1, credits = 5\<rparr>)]"
    by (simp add: summarize_usage_def credits_used_of_def add_call_def
          earliest_of_def latest_of_def formatted_time_of_def)
qed

text \<open>
  Witness for C2 (amended) on the four sample records: they are well formed, the total
  is 12, the record without \<open>credits_used\<close> counts with 0 credits, and the one with an
  empty source is in no source group.
\<close>

theorem summarize_usage_totals_and_breakdowns_witness:
  "list_all well_formed_call sample_calls \<and>
   (\<exists>s. summarize_usage sample_calls = Inr s \<and>
        total_credits_used s = 12 \<and>
        map_of (breakdown_by_type s) (PStr ''speech_generation'') = Some \<lparr>count = 2, credits = 5\<rparr> \<and>
        map_of (breakdown_by_type s) (PStr ''conversational_ai'') = Some \<lparr>count = 2, credits = 7\<rparr> \<and>
        map_of (breakdown_by_source s) (PStr ''api'') = Some \<lparr>count = 1, credits = 5\<rparr> \<and>
        map_of (breakdown_by_source s) (PStr []) = None)"
proof -
  from summarize_usage_totals_and_breakdowns [of sample_calls "''a''" "''b''"]
    sample_calls_well_formed
  obtain s where s: "summarize_usage sample_calls = Inr s"
    "total_credits_used s = sum_list (map credit_int sample_calls)"
    "map_of (breakdown_by_type s) = spec_breakdown type_key sample_calls"
    "map_of (breakdown_by_source s) = spec_breakdown (speech_key ''source'') sample_calls"
    by blast
  have "sum_list (map credit_int sample_calls) = 12"
    by (simp add: sample_calls_def credit_int_def credits_used_of_def)
  moreover have "spec_breakdown type_key sample_calls (PStr ''speech_generation'') =
      Some \<lparr>count = 2, credits = 5\<rparr>"
    by (simp add: sample_calls_def spec_breakdown_def type_key_def credit_int_def
          credits_used_of_def)
  moreover have "spec_breakdown type_key sample_calls (PStr ''conversational_ai'') =
      Some \<lparr>count = 2, credits = 7\<rparr>"
    by (simp add: sample_calls_def spec_breakdown_def type_key_def credit_int_def
          credits_used_of_def)
  moreover have "spec_breakdown (speech_key ''source'') sample_calls (PStr ''api'') =
      Some \<lparr>count = 1, credits = 5\<rparr>"
    by (simp add: sample_calls_def spec_breakdown_def speech_key_def credit_int_def
          credits_used_of_def)
  moreover have "spec_breakdown (speech_key ''source'') sample_calls (PStr []) = None"
    by (simp add: sample_calls_def spec_breakdown_def speech_key_def credit_int_def
          credits_used_of_def)
  ultimately show ?thesis using s sample_calls_well_formed by auto
qed

text \<open>
  Claim C7. On the empty list the aggregator returns \<open>total_api_calls = 0\<close>,
  \<open>total_credits_used = 0\<close>, three empty breakdowns and a time range whose ends are both
  \<open>None\<close>. On a non-empty list of records with formatted-time strings, the earliest and
  the latest call are the least and the greatest of these strings in the lexicographic
  order.
\<close>

theorem summarize_usage_empty_and_time_range:
  "summarize_usage [] =
     Inr \<lparr>total_api_calls = 0, total_credits_used = 0, breakdown_by_type = [],
          breakdown_by_source = [], breakdown_by_voice = [],
          earliest_call = PNone, latest_call = PNone\<rparr> \<and>
   (all_calls \<noteq> [] \<and> list_all has_time_string all_calls \<longrightarrow>
      earliest_of all_calls = Inr (PStr (Min (set (map time_string all_calls)))) \<and>
      latest_of all_calls = Inr (PStr (Max (set (map time_string all_calls)))) \<and>
      (\<forall>s. summarize_usage all_calls = Inr s \<longrightarrow>
           earliest_call s = PStr (Min (set (map time_string all_calls))) \<and>
           latest_call s = PStr (Max (set (map time_string all_calls)))))"
proof (intro conjI impI allI)
  show "summarize_usage [] =
     Inr \<lparr>total_api_calls = 0, total_credits_used = 0, breakdown_by_type = [],
          breakdown_by_source = [], breakdown_by_voice = [],
          earliest_call = PNone, latest_call = PNone\<rparr>"
    by (simp add: summarize_usage_def earliest_of_def latest_of_def)
next
  assume a: "all_calls \<noteq> [] \<and> list_all has_time_string all_calls"
  then show e: "earliest_of all_calls = Inr (PStr (Min (set (map time_string all_calls))))"
    by (simp add: earliest_of_strings)
  from a show l: "latest_of all_calls = Inr (PStr (Max (set (map time_string all_calls))))"
    by (simp add: latest_of_strings)
  fix s
  assume s: "summarize_usage all_calls = Inr s"
  from summarize_usage_parts [OF s] e
  show "earliest_call s = PStr (Min (set (map time_string all_calls)))" by simp
  from summarize_usage_parts [OF s] l
  show "latest_call s = PStr (Max (set (map time_string all_calls)))" by simp
qed

text \<open>
  Witness for C7 on the four sample records: the summary exists, the earliest call is
  the second record's time and the latest the fourth's.
\<close>

theorem summarize_usage_empty_and_time_range_witness:
  "sample_calls \<noteq> [] \<and> list_all has_time_string sample_calls \<and>
   (\<exists>s. summarize_usage sample_calls = Inr s \<and>
        earliest_call s = PStr ''2024-02-29 23:59:59 UTC'' \<and>
        latest_call s = PStr ''2024-11-05 00:00:00 UTC'')"
proof -
  have ne: "sample_calls \<noteq> []" by (simp add: sample_calls_def)
  have ts: "list_all has_time_string sample_calls"
    by (simp add: sample_calls_def has_time_string_def)
  obtain s where s: "summarize_usage sample_calls = Inr s"
    using summarize_usage_returns [OF sample_calls_well_formed] ..
  have mn: "Min (set (map time_string sample_calls)) = ''2024-02-29 23:59:59 UTC''"
    by (simp add: sample_calls_def time_string_def)
  have mx: "Max (set (map time_string sample_calls)) = ''2024-11-05 00:00:00 UTC''"
    by (simp add: sample_calls_def time_string_def)
  from summarize_usage_empty_and_time_range [of sample_calls] ne ts s mn mx
  show ?thesis by auto
qed

text \<open>
  Claim C10. For every list whose records all have a \<open>type\<close> field, the summary the
  aggregator returns is consistent: \<open>total_api_calls\<close> is the sum of the \<open>count\<close> fields
  of \<open>breakdown_by_type\<close>, and \<open>total_credits_used\<close> the sum of its \<open>credits\<close> fields
  (the keys of the breakdown being distinct, each entry is counted once).
\<close>

theorem summarize_usage_consistent:
  assumes "\<forall>call \<in> set all_calls. map_of call ''type'' \<noteq> None"
    and "summarize_usage all_calls = Inr s"
  shows "total_api_calls s = sum_list (map (\<lambda>kb. count (snd kb)) (breakdown_by_type s)) \<and>
         total_credits_used s = sum_list (map (\<lambda>kb. credits (snd kb)) (breakdown_by_type s)) \<and>
         distinct (map fst (breakdown_by_type s))"
proof -
  note p = summarize_usage_parts [OF assms(2)]
  from p have "total_credits_used s = sum_list (map credit_int all_calls)"
    using sum_credits_Inr [of all_calls 0] by simp
  with group_by_type_sums [of all_calls "[]" "breakdown_by_type s"] p
  show ?thesis by simp
qed

text \<open>
  Witness for C10 on the four sample records: every record has a type, the aggregator
  returns a summary, and in it 4 calls and 12 credits are also the sums over the two
  entries of the breakdown by type.
\<close>

theorem summarize_usage_consistent_witness:
  "list_all (\<lambda>call. map_of call ''type'' \<noteq> None) sample_calls \<and>
   (\<exists>s. summarize_usage sample_calls = Inr s \<and>
        total_api_calls s = 4 \<and>
        sum_list (map (\<lambda>kb. count (snd kb)) (breakdown_by_type s)) = 4 \<and>
        total_credits_used s = 12 \<and>
        sum_list (map (\<lambda>kb. credits (snd kb)) (breakdown_by_type s)) = 12)"
proof -
  have t: "\<forall>call \<in> set sample_calls. map_of call ''type'' \<noteq> None"
    by (simp add: sample_calls_def)
  obtain s where s: "summarize_usage sample_calls = Inr s"
    using summarize_usage_returns [OF sample_calls_well_formed] ..
  have n: "total_api_calls s = 4"
    using summarize_usage_parts [OF s] by (simp add: sample_calls_def)
  have c: "total_credits_used s = 12"
    using summarize_usage_parts [OF s] sum_credits_Inr [of sample_calls 0 "total_credits_used s"]
    by (simp add: sample_calls_def credit_int_def credits_used_of_def)
  have t': "list_all (\<lambda>call. map_of call ''type'' \<noteq> None) sample_calls"
    by (simp add: sample_calls_def)
  from summarize_usage_consistent [OF t s] n c t' s show ?thesis by auto
qed

section \<open>Claims about the speech-history fetcher\<close>

text \<open>
  Claim C1. When the page source is newest-first, the fetcher stops entirely at the first
  record older than \<open>start_ms\<close> and returns what it has accumulated, without that record.
  In the model: a page is fetched and holds the items \<open>pre\<close>, then \<open>old\<close>, then \<open>rest\<close>;
  \<open>old\<close> is older than \<open>start_ms\<close> and is the first such item, so that the loop reaches it
  (no item of \<open>pre\<close> is older, and the records of those inside the window are built
  without an exception). Then the \<open>while\<close> loop returns at once the records it entered
  the page with, followed by the records of \<open>pre\<close> that lie in the window; no later page
  is asked for, and the record of \<open>old\<close> is not among the new ones. If the page is in
  strictly decreasing order, every item of \<open>rest\<close> is older than \<open>start_ms\<close> as well, so
  nothing of the window is lost.
\<close>

theorem history_loop_stops_at_first_older:
  assumes "history_list cl page_size_history start_after_id = Inr response"
    and "history response = pre @ old # rest"
    and "\<forall>item \<in> set pre. start_ms \<le> date_unix item * 1000"
    and "\<forall>item \<in> set pre. date_unix item * 1000 \<le> end_ms \<longrightarrow>
           \<not> isl (call_data item (date_unix item * 1000))"
    and "date_unix old * 1000 < start_ms"
  shows "history_loop cl start_ms end_ms start_after_id all_history =
           Some (all_history @ window_records start_ms end_ms pre) \<and>
         (\<forall>d. call_data old (date_unix old * 1000) = Inr d \<longrightarrow>
              d \<notin> set (window_records start_ms end_ms pre)) \<and>
         (sorted_wrt (\<lambda>a b. date_unix b < date_unix a) (history response) \<longrightarrow>
            (\<forall>item \<in> set rest. date_unix item * 1000 < start_ms))"
proof (intro conjI allI impI)
  have pre: "scan_page start_ms end_ms pre all_history =
      Exhausted (all_history @ window_records start_ms end_ms pre)"
    by (rule scan_page_not_older [OF assms(3,4)])
  have "scan_page start_ms end_ms (history response) all_history =
      Returned (all_history @ window_records start_ms end_ms pre)"
    using assms(5) by (simp add: assms(2) scan_page_append pre Let_def)
  from history_loop_returned [OF assms(1) this]
  show "history_loop cl start_ms end_ms start_after_id all_history =
      Some (all_history @ window_records start_ms end_ms pre)" .
next
  fix d
  assume d: "call_data old (date_unix old * 1000) = Inr d"
  show "d \<notin> set (window_records start_ms end_ms pre)"
  proof
    assume "d \<in> set (window_records start_ms end_ms pre)"
    from window_records_in_window [OF this] call_data_fields [OF d] assms(5)
    show False by (simp add: in_window_def)
  qed
next
  assume "sorted_wrt (\<lambda>a b. date_unix b < date_unix a) (history response)"
  with assms(2,5) show "\<forall>item \<in> set rest. date_unix item * 1000 < start_ms"
    using sorted_rest_older [of pre old rest start_ms] by simp
qed
text \<open>
  Witness for C1 on the scripted history: the second page is \<open>c, d, e\<close> in decreasing
  order, \<open>d\<close> is the first item older than the window, and the loop entered at that page
  returns the one record of \<open>c\<close>; the whole fetcher returns the records of \<open>b\<close> and \<open>c\<close>
  and never asks for the third page.
\<close>

theorem history_loop_stops_at_first_older_witness:
  "history_list sample_client page_size_history (Some ''b'') = Inr sample_page2 \<and>
   history sample_page2 =
     [sample_item ''c'' 1700001000] @ sample_item ''d'' 1699990000 # [sample_item ''e'' 1699980000] \<and>
   date_unix (sample_item ''d'' 1699990000) * 1000 < sample_start_ms \<and>
   sorted_wrt (\<lambda>a b. date_unix b < date_unix a) (history sample_page2) \<and>
   history_loop sample_client sample_start_ms sample_end_ms (Some ''b'') [] =
     Some (window_records sample_start_ms sample_end_ms [sample_item ''c'' 1700001000]) \<and>
   map (\<lambda>r. map_of r ''id'')
     (window_records sample_start_ms sample_end_ms [sample_item ''c'' 1700001000]) =
   [Some (PStr ''c'')] \<and>
   list_all (\<lambda>item. date_unix item * 1000 < sample_start_ms) [sample_item ''e'' 1699980000]"
proof -
  have a1: "history_list sample_client page_size_history (Some ''b'') = Inr sample_page2"
    by (simp add: sample_client_def sample_history_list_def)
  have a2: "history sample_page2 =
     [sample_item ''c'' 1700001000] @ sample_item ''d'' 1699990000 # [sample_item ''e'' 1699980000]"
    by (simp add: sample_page2_def)
  have a3: "\<forall>item \<in> set [sample_item ''c'' 1700001000]. sample_start_ms \<le> date_unix item * 1000"
    by (simp add: sample_item_def sample_start_ms_def)
  have a4: "\<forall>item \<in> set [sample_item ''c'' 1700001000]. date_unix item * 1000 \<le> sample_end_ms \<longrightarrow>
           \<not> isl (call_data item (date_unix item * 1000))"
    using sample_item_c_builds by (simp add: sample_item_def)
  have a5: "date_unix (sample_item ''d'' 1699990000) * 1000 < sample_start_ms"
    by (simp add: sample_item_def sample_start_ms_def)
  have so: "sorted_wrt (\<lambda>a b. date_unix b < date_unix a) (history sample_page2)"
    by (simp add: sample_page2_def sample_item_def)
  from history_loop_stops_at_first_older [OF a1 a2 a3 a4 a5, of "[]"] a1 a2 a5 so
    sample_window_records_c
  show ?thesis by simp
qed
text \<open>
  Claim C8. Every record the speech-history fetcher returns has its \<open>timestamp_ms\<close> in
  the inclusive window from \<open>start_ms\<close> to \<open>end_ms\<close>. An item newer than \<open>end_ms\<close> is
  skipped and the scan of the page goes on; an item older than \<open>start_ms\<close> ends the scan
  with the records accumulated so far.
\<close>

theorem speech_history_within_window:
  "(get_speech_history cl start_ms end_ms = Some rs \<longrightarrow>
      list_all (in_window start_ms end_ms) rs) \<and>
   (start_ms \<le> end_ms \<and> end_ms < date_unix item * 1000 \<longrightarrow>
      scan_page start_ms end_ms (item # items) acc = scan_page start_ms end_ms items acc) \<and>
   (date_unix item * 1000 < start_ms \<longrightarrow>
      scan_page start_ms end_ms (item # items) acc = Returned acc)"
proof (intro conjI impI)
  assume ret: "get_speech_history cl start_ms end_ms = Some rs"
  show "list_all (in_window start_ms end_ms) rs"
    unfolding list_all_iff
  proof
    fix r
    assume "r \<in> set rs"
    from get_speech_history_origin [OF ret this] obtain item where
      "start_ms \<le> date_unix item * 1000" "date_unix item * 1000 \<le> end_ms"
      "call_data item (date_unix item * 1000) = Inr r"
      by blast
    with call_data_fields [of item "date_unix item * 1000" r]
    show "in_window start_ms end_ms r" by (simp add: in_window_def)
  qed
next
  assume "start_ms \<le> end_ms \<and> end_ms < date_unix item * 1000"
  then show "scan_page start_ms end_ms (item # items) acc = scan_page start_ms end_ms items acc"
    by (simp add: Let_def)
next
  assume "date_unix item * 1000 < start_ms"
  then show "scan_page start_ms end_ms (item # items) acc = Returned acc"
    by (simp add: Let_def)
qed
text \<open>
  Witness for C8 on the scripted history: the fetcher returns two records, at
  1700003000000 and 1700001000000 ms, both inside the window; item \<open>a\<close> of the first page
  is newer than the window and is skipped, item \<open>d\<close> is older and ends the scan.
\<close>

theorem speech_history_within_window_witness:
  "sample_start_ms \<le> sample_end_ms \<and>
   sample_end_ms < date_unix (sample_item ''a'' 1700009999) * 1000 \<and>
   date_unix (sample_item ''d'' 1699990000) * 1000 < sample_start_ms \<and>
   (\<exists>rs. get_speech_history sample_client sample_start_ms sample_end_ms = Some rs \<and>
         map (\<lambda>r. int_field r ''timestamp_ms'') rs = [Some 1700003000000, Some 1700001000000] \<and>
         list_all (in_window sample_start_ms sample_end_ms) rs) \<and>
   scan_page sample_start_ms sample_end_ms (history sample_page1) [] =
     scan_page sample_start_ms sample_end_ms [sample_item ''b'' 1700003000] [] \<and>
   scan_page sample_start_ms sample_end_ms
     [sample_item ''d'' 1699990000, sample_item ''e'' 1699980000] [] = Returned []"
proof -
  have w: "sample_start_ms \<le> sample_end_ms"
    by (simp add: sample_start_ms_def sample_end_ms_def)
  have n: "sample_end_ms < date_unix (sample_item ''a'' 1700009999) * 1000"
    by (simp add: sample_item_def sample_end_ms_def)
  have o: "date_unix (sample_item ''d'' 1699990000) * 1000 < sample_start_ms"
    by (simp add: sample_item_def sample_start_ms_def)
  obtain rs where rs: "get_speech_history sample_client sample_start_ms sample_end_ms = Some rs"
    using sample_speech_history_returns
    by (cases "get_speech_history sample_client sample_start_ms sample_end_ms") simp_all
  have ts: "map (\<lambda>r. int_field r ''timestamp_ms'') rs = [Some 1700003000000, Some 1700001000000]"
    using sample_speech_history_returns by (simp only: rs option.sel)
  note t1 = speech_history_within_window
    [where cl = sample_client and start_ms = sample_start_ms and end_ms = sample_end_ms
       and rs = rs and item = "sample_item ''a'' 1700009999"
       and items = "[sample_item ''b'' 1700003000]" and acc = "[]"]
  note t2 = speech_history_within_window
    [where cl = sample_client and start_ms = sample_start_ms and end_ms = sample_end_ms
       and rs = rs and item = "sample_item ''d'' 1699990000"
       and items = "[sample_item ''e'' 1699980000]" and acc = "[]"]
  have p1: "history sample_page1 = [sample_item ''a'' 1700009999, sample_item ''b'' 1700003000]"
    by (simp add: sample_page1_def)
  have c1: "list_all (in_window sample_start_ms sample_end_ms) rs"
    using t1 rs by simp
  have c2: "scan_page sample_start_ms sample_end_ms (history sample_page1) [] =
     scan_page sample_start_ms sample_end_ms [sample_item ''b'' 1700003000] []"
    unfolding p1 using t1 w n by simp
  have c3: "scan_page sample_start_ms sample_end_ms
     [sample_item ''d'' 1699990000, sample_item ''e'' 1699980000] [] = Returned []"
    using t2 o by simp
  from w n o rs ts c1 c2 c3 show ?thesis by simp
qed
section \<open>Claims about the constructed records\<close>

text \<open>
  Claim C9. Every usage record that either fetcher builds, for a speech generation, for
  a fully enriched conversation or for a degraded one, has
  \<open>timestamp_ms = timestamp * 1000\<close> and \<open>formatted_time = format_timestamp(timestamp_ms)\<close>;
  so has every record in the lists the two fetchers return.
\<close>

theorem records_time_consistent:
  "(call_data item (date_unix item * 1000) = Inr r \<longrightarrow> time_consistent r) \<and>
   (conv_data c detailed = Inr r \<longrightarrow> time_consistent r) \<and>
   (degraded_conv_data c e = Inr r \<longrightarrow> time_consistent r) \<and>
   (get_speech_history cl start_ms end_ms = Some rs \<longrightarrow> list_all time_consistent rs) \<and>
   (get_conversation_history cl start_ms end_ms = Some rs \<longrightarrow> list_all time_consistent rs)"
proof (intro conjI impI)
  assume "call_data item (date_unix item * 1000) = Inr r"
  then show "time_consistent r" by (rule call_data_time_consistent)
next
  assume "conv_data c detailed = Inr r"
  then show "time_consistent r" by (rule conv_data_time_consistent)
next
  assume "degraded_conv_data c e = Inr r"
  then show "time_consistent r" by (rule degraded_time_consistent)
next
  assume ret: "get_speech_history cl start_ms end_ms = Some rs"
  show "list_all time_consistent rs"
    unfolding list_all_iff
    using get_speech_history_origin [OF ret] call_data_time_consistent by blast
next
  assume ret: "get_conversation_history cl start_ms end_ms = Some rs"
  show "list_all time_consistent rs"
    unfolding list_all_iff
    using get_conversation_history_origin [OF ret] conv_data_time_consistent
      degraded_time_consistent by blast
qed
text \<open>
  Witness for C9 on the sample client: the speech fetcher returns two records and the
  conversation fetcher three, all with consistent time fields, and each of the three
  constructors builds such a record.
\<close>

theorem records_time_consistent_witness:
  "(\<exists>rs. get_speech_history sample_client sample_start_ms sample_end_ms = Some rs \<and>
         length rs = 2 \<and> list_all time_consistent rs) \<and>
   (\<exists>rs. get_conversation_history sample_client sample_start_ms sample_end_ms = Some rs \<and>
         length rs = 3 \<and> list_all time_consistent rs) \<and>
   (\<exists>r. call_data (sample_item ''c'' 1700001000)
           (date_unix (sample_item ''c'' 1700001000) * 1000) = Inr r \<and> time_consistent r) \<and>
   (\<exists>r. conv_data (sample_conversation ''c1'' 1700000100) sample_detail1 = Inr r \<and>
        time_consistent r) \<and>
   (\<exists>r. degraded_conv_data (sample_conversation ''c2'' 1700000200) (RemoteError ''boom'') = Inr r \<and>
        time_consistent r)"
proof -
  obtain rs where rs: "get_speech_history sample_client sample_start_ms sample_end_ms = Some rs"
    using sample_speech_history_returns
    by (cases "get_speech_history sample_client sample_start_ms sample_end_ms") simp_all
  have "map (\<lambda>r. int_field r ''timestamp_ms'') rs = [Some 1700003000000, Some 1700001000000]"
    using sample_speech_history_returns by (simp only: rs option.sel)
  then have "length (map (\<lambda>r. int_field r ''timestamp_ms'') rs) = 2" by simp
  then have lrs: "length rs = 2" by simp
  obtain cs where
    cs: "get_conversation_history sample_client sample_start_ms sample_end_ms = Some cs"
    using sample_conversation_history_returns
    by (cases "get_conversation_history sample_client sample_start_ms sample_end_ms") simp_all
  have "map (\<lambda>r. map_of r ''id'') cs = [Some (PStr ''c1''), Some (PStr ''c2''), Some (PStr ''c3'')]"
    using sample_conversation_history_returns by (simp only: cs option.sel)
  then have "length (map (\<lambda>r. map_of r ''id'') cs) = 3" by simp
  then have lcs: "length cs = 3" by simp
  obtain r1 where r1: "call_data (sample_item ''c'' 1700001000)
           (date_unix (sample_item ''c'' 1700001000) * 1000) = Inr r1"
    using sample_records_build
    by (cases "call_data (sample_item ''c'' 1700001000)
           (date_unix (sample_item ''c'' 1700001000) * 1000)") simp_all
  obtain r2 where r2: "conv_data (sample_conversation ''c1'' 1700000100) sample_detail1 = Inr r2"
    using sample_records_build
    by (cases "conv_data (sample_conversation ''c1'' 1700000100) sample_detail1") simp_all
  obtain r3 where
    r3: "degraded_conv_data (sample_conversation ''c2'' 1700000200) (RemoteError ''boom'') = Inr r3"
    using sample_records_build
    by (cases "degraded_conv_data (sample_conversation ''c2'' 1700000200) (RemoteError ''boom'')")
      simp_all
  note s = records_time_consistent
    [where cl = sample_client and start_ms = sample_start_ms and end_ms = sample_end_ms
       and rs = rs and item = "sample_item ''c'' 1700001000" and r = r1]
  note c = records_time_consistent
    [where cl = sample_client and start_ms = sample_start_ms and end_ms = sample_end_ms
       and rs = cs and c = "sample_conversation ''c1'' 1700000100"
       and detailed = sample_detail1 and r = r2]
  note d = records_time_consistent
    [where c = "sample_conversation ''c2'' 1700000200" and e = "RemoteError ''boom''" and r = r3]
  have e1: "list_all time_consistent rs" using s rs by simp
  have e2: "list_all time_consistent cs" using c cs by simp
  have e3: "time_consistent r1" using s r1 by simp
  have e4: "time_consistent r2" using c r2 by simp
  have e5: "time_consistent r3" using d r3 by simp
  from rs lrs cs lcs r1 r2 r3 e1 e2 e3 e4 e5 show ?thesis by simp
qed
section \<open>Claims about the conversation fetcher\<close>

text \<open>
  Claim C4. For every successfully enriched conversation, the record's \<open>credits_used\<close>
  is the cost of the detail record's metadata, and 0 when the metadata has no cost;
  \<open>total_llm_tokens\<close> is the sum of \<open>total_tokens\<close> over exactly the transcript entries
  that expose a token usage, the other entries adding nothing and raising nothing. A
  detail record without metadata is never enriched: reading its cost raises, and the
  record emitted for that conversation is the degraded one, whose \<open>credits_used\<close> is 0.
\<close>

theorem enriched_record_cost_and_tokens:
  "(conv_data c detailed = Inr r \<longrightarrow>
      (\<exists>md. metadata detailed = Some md \<and>
            map_of r ''credits_used'' = Some (PInt (case cost md of None \<Rightarrow> 0 | Some k \<Rightarrow> k)) \<and>
            map_of r ''total_llm_tokens'' =
              Some (PInt (sum_list (map tokens_of (filter exposes_tokens (transcript detailed))))))) \<and>
   (conversations_get cl (conversation_id c) = Inr detailed \<and> metadata detailed = None \<and>
    process_conversations cl [c] acc = Inr rs \<longrightarrow>
      (\<exists>r'. rs = acc @ [r'] \<and> is_degraded r' \<and> map_of r' ''credits_used'' = Some (PInt 0)))"
proof (intro conjI impI)
  assume "conv_data c detailed = Inr r"
  from conv_data_fields [OF this] obtain md where md: "metadata detailed = Some md"
    "map_of r ''credits_used'' = Some (PInt (total_cost_of md))"
    "map_of r ''total_llm_tokens'' = Some (PInt (sum_llm_tokens (transcript detailed) 0))"
    by blast
  have "total_cost_of md = (case cost md of None \<Rightarrow> 0 | Some k \<Rightarrow> k)"
    by (simp add: total_cost_of_def split: option.splits)
  with md show "\<exists>md. metadata detailed = Some md \<and>
            map_of r ''credits_used'' = Some (PInt (case cost md of None \<Rightarrow> 0 | Some k \<Rightarrow> k)) \<and>
            map_of r ''total_llm_tokens'' =
              Some (PInt (sum_list (map tokens_of (filter exposes_tokens (transcript detailed)))))"
    by (simp add: sum_llm_tokens_eq tokens_of_filter)
next
  assume a: "conversations_get cl (conversation_id c) = Inr detailed \<and> metadata detailed = None \<and>
    process_conversations cl [c] acc = Inr rs"
  then have f: "fetch_and_enrich cl c = Inl (AttributeError ''cost'')"
    by (simp add: fetch_and_enrich_def conv_data_def)
  with a obtain d where d: "degraded_conv_data c (AttributeError ''cost'') = Inr d" "rs = acc @ [d]"
    by (auto split: sum.splits)
  from degraded_conv_data_fields [OF d(1)] d(2)
  show "\<exists>r'. rs = acc @ [r'] \<and> is_degraded r' \<and> map_of r' ''credits_used'' = Some (PInt 0)"
    by (simp add: is_degraded_def)
qed
text \<open>
  Witness for C4: the first sample conversation has cost 7 and, among four transcript
  entries, two that expose 40 and 2 tokens; the third has no cost and an empty
  transcript; the fourth has no metadata and is emitted as a degraded record.
\<close>

theorem enriched_record_cost_and_tokens_witness:
  "(\<exists>r. conv_data (sample_conversation ''c1'' 1700000100) sample_detail1 = Inr r \<and>
        map_of r ''credits_used'' = Some (PInt 7) \<and>
        map_of r ''total_llm_tokens'' = Some (PInt 42)) \<and>
   (\<exists>r. conv_data (sample_conversation ''c3'' 1700000300) sample_detail3 = Inr r \<and>
        map_of r ''credits_used'' = Some (PInt 0) \<and>
        map_of r ''total_llm_tokens'' = Some (PInt 0)) \<and>
   conversations_get sample_client (conversation_id (sample_conversation ''c4'' 1700000400)) =
     Inr sample_detail4 \<and>
   metadata sample_detail4 = None \<and>
   (\<exists>r. process_conversations sample_client [sample_conversation ''c4'' 1700000400] [] = Inr [r] \<and>
        is_degraded r \<and> map_of r ''credits_used'' = Some (PInt 0))"
proof -
  from sample_conv_data1 obtain r1 where
    r1: "conv_data (sample_conversation ''c1'' 1700000100) sample_detail1 = Inr r1"
    by (cases "conv_data (sample_conversation ''c1'' 1700000100) sample_detail1") auto
  from sample_conv_data1 obtain r3 where
    r3: "conv_data (sample_conversation ''c3'' 1700000300) sample_detail3 = Inr r3"
    by (cases "conv_data (sample_conversation ''c3'' 1700000300) sample_detail3") auto
  from sample_conv_data1 obtain rs where
    rs: "process_conversations sample_client [sample_conversation ''c4'' 1700000400] [] = Inr rs"
    by (cases "process_conversations sample_client [sample_conversation ''c4'' 1700000400] []")
      auto
  have g: "conversations_get sample_client (conversation_id (sample_conversation ''c4'' 1700000400)) =
     Inr sample_detail4"
    by (simp add: sample_client_def sample_conversations_get_def sample_conversation_def)
  have m: "metadata sample_detail4 = None" by (simp add: sample_detail4_def)
  have m1: "metadata sample_detail1 = Some (sample_metadata 1700000100 (Some 7))"
    by (simp add: sample_detail1_def)
  have m3: "metadata sample_detail3 = Some (sample_metadata 1700000300 None)"
    by (simp add: sample_detail3_def)
  have c1: "cost (sample_metadata 1700000100 (Some 7)) = Some 7"
    and c3: "cost (sample_metadata 1700000300 None) = None"
    by (simp_all add: sample_metadata_def)
  note t1 = enriched_record_cost_and_tokens
    [where c = "sample_conversation ''c1'' 1700000100" and detailed = sample_detail1 and r = r1
       and cl = sample_client and acc = "[]" and rs = rs]
  note t3 = enriched_record_cost_and_tokens
    [where c = "sample_conversation ''c3'' 1700000300" and detailed = sample_detail3 and r = r3
       and cl = sample_client and acc = "[]" and rs = rs]
  note t4 = enriched_record_cost_and_tokens
    [where c = "sample_conversation ''c4'' 1700000400" and detailed = sample_detail4 and r = r1
       and cl = sample_client and acc = "[]" and rs = rs]
  have e1: "map_of r1 ''credits_used'' = Some (PInt 7) \<and>
        map_of r1 ''total_llm_tokens'' = Some (PInt 42)"
    using t1 r1 m1 c1 sample_tokens by auto
  have e3: "map_of r3 ''credits_used'' = Some (PInt 0) \<and>
        map_of r3 ''total_llm_tokens'' = Some (PInt 0)"
    using t3 r3 m3 c3 sample_tokens by auto
  have e4: "\<exists>r. rs = [r] \<and> is_degraded r \<and> map_of r ''credits_used'' = Some (PInt 0)"
    using t4 g m rs by auto
  from e1 e3 e4 r1 r3 rs g m show ?thesis by auto
qed
text \<open>
  Claim C5, at an input where the code departs from it. Three conversations are listed
  on one page without a further cursor; the detail fetch raises for the second one only,
  and the other two are fetched and enriched without an exception. The second one is
  listed with a start time that \<open>format_timestamp\<close> rejects (the year 11476), so building
  its degraded record raises inside the handler; the exception leaves the loop, the outer
  handler catches it, and the fetcher returns the empty list instead of three records.
\<close>

theorem late_listed_start_time_drops_all_conversations:
  "conversations_list late_client None (sample_start_ms div 1000) (sample_end_ms div 1000)
     page_size_conversations = Inr late_conversations_page \<and>
   length (conversations late_conversations_page) = 3 \<and>
   cursor late_conversations_page = None \<and>
   map (detail_fetch_fails late_client) (conversations late_conversations_page) =
     [False, True, False] \<and>
   map (\<lambda>c. isl (fetch_and_enrich late_client c)) (conversations late_conversations_page) =
     [False, True, False] \<and>
   get_conversation_history late_client sample_start_ms sample_end_ms = Some []"
  by code_simp
text \<open>
  What holds of C5 on the code: when fetching and enriching fails for exactly one of
  three listed conversations and completes for the other two, and the listed start time
  of the failed one can be formatted, the page yields three records in listing order, the
  failed one degraded (with an \<open>error\<close> field) and the other two fully enriched. Without a
  further cursor these three are the fetcher's result; with one, the loop goes on to the
  next page, carrying the three records.
\<close>

theorem one_failed_detail_fetch_of_three:
  assumes "conversations_list cl None (start_ms div 1000) (end_ms div 1000)
             page_size_conversations = Inr response"
    and "conversations response = [c1, c2, c3]"
    and "length (filter (detail_fetch_fails cl) [c1, c2, c3]) = 1"
    and "\<forall>c \<in> set [c1, c2, c3]. \<not> detail_fetch_fails cl c \<longrightarrow> \<not> isl (fetch_and_enrich cl c)"
    and "\<forall>c \<in> set [c1, c2, c3]. detail_fetch_fails cl c \<longrightarrow>
           \<not> isl (format_timestamp (start_time_unix_secs c * 1000))"
  shows "\<exists>r1 r2 r3.
           map (\<lambda>r. map_of r ''id'') [r1, r2, r3] =
             map (\<lambda>c. Some (PStr (conversation_id c))) [c1, c2, c3] \<and>
           map is_degraded [r1, r2, r3] = map (detail_fetch_fails cl) [c1, c2, c3] \<and>
           length (filter is_degraded [r1, r2, r3]) = 1 \<and>
           length (filter is_enriched [r1, r2, r3]) = 2 \<and>
           (cursor response = None \<longrightarrow>
              get_conversation_history cl start_ms end_ms = Some [r1, r2, r3]) \<and>
           (\<forall>k. cursor response = Some k \<and> k \<noteq> [] \<longrightarrow>
              conversations_loop cl (start_ms div 1000) (end_ms div 1000) None [] =
              conversations_loop cl (start_ms div 1000) (end_ms div 1000) (Some k) [r1, r2, r3])"
proof -
  from conversation_step [of cl c1] assms(4,5) obtain r1 where
    r1: "\<And>cs acc. process_conversations cl (c1 # cs) acc = process_conversations cl cs (acc @ [r1])"
      "map_of r1 ''id'' = Some (PStr (conversation_id c1))"
      "is_degraded r1 = detail_fetch_fails cl c1" "is_enriched r1 = (\<not> detail_fetch_fails cl c1)"
    by auto
  from conversation_step [of cl c2] assms(4,5) obtain r2 where
    r2: "\<And>cs acc. process_conversations cl (c2 # cs) acc = process_conversations cl cs (acc @ [r2])"
      "map_of r2 ''id'' = Some (PStr (conversation_id c2))"
      "is_degraded r2 = detail_fetch_fails cl c2" "is_enriched r2 = (\<not> detail_fetch_fails cl c2)"
    by auto
  from conversation_step [of cl c3] assms(4,5) obtain r3 where
    r3: "\<And>cs acc. process_conversations cl (c3 # cs) acc = process_conversations cl cs (acc @ [r3])"
      "map_of r3 ''id'' = Some (PStr (conversation_id c3))"
      "is_degraded r3 = detail_fetch_fails cl c3" "is_enriched r3 = (\<not> detail_fetch_fails cl c3)"
    by auto
  have "process_conversations cl [c1, c2, c3] [] = process_conversations cl [] [r1, r2, r3]"
    by (simp only: r1(1) r2(1) r3(1) append.simps)
  then have pc: "process_conversations cl [c1, c2, c3] [] = Inr [r1, r2, r3]"
    by simp
  have deg: "length (filter is_degraded [r1, r2, r3]) = 1"
    using assms(3) r1(3) r2(3) r3(3) by (simp split: if_splits)
  have enr: "length (filter is_enriched [r1, r2, r3]) = 2"
    using assms(3) r1(4) r2(4) r3(4) by (simp split: if_splits)
  have pc': "process_conversations cl (conversations response) [] = Inr [r1, r2, r3]"
    using pc by (simp only: assms(2))
  have ne: "conversations response \<noteq> []" by (simp add: assms(2))
  note step = conversations_loop_page [OF assms(1) ne pc']
  have one: "cursor response = None \<longrightarrow>
      get_conversation_history cl start_ms end_ms = Some [r1, r2, r3]"
    by (simp add: get_conversation_history_def step)
  have more: "\<forall>k. cursor response = Some k \<and> k \<noteq> [] \<longrightarrow>
      conversations_loop cl (start_ms div 1000) (end_ms div 1000) None [] =
      conversations_loop cl (start_ms div 1000) (end_ms div 1000) (Some k) [r1, r2, r3]"
    by (simp add: step)
  from r1(2,3) r2(2,3) r3(2,3) deg enr one more show ?thesis
    by (intro exI [of _ r1] exI [of _ r2] exI [of _ r3]) simp
qed
text \<open>
  The sample client is such a case: the detail fetch of the second of its three
  conversations raises, and the fetcher returns three records in order, the second
  degraded.
\<close>

theorem one_failed_detail_fetch_of_three_witness:
  "conversations_list sample_client None (sample_start_ms div 1000) (sample_end_ms div 1000)
     page_size_conversations = Inr sample_conversations_page \<and>
   map (detail_fetch_fails sample_client) (conversations sample_conversations_page) =
     [False, True, False] \<and>
   (\<exists>r1 r2 r3.
      get_conversation_history sample_client sample_start_ms sample_end_ms = Some [r1, r2, r3] \<and>
      map (\<lambda>r. map_of r ''id'') [r1, r2, r3] =
        [Some (PStr ''c1''), Some (PStr ''c2''), Some (PStr ''c3'')] \<and>
      map is_degraded [r1, r2, r3] = [False, True, False] \<and>
      length (filter is_degraded [r1, r2, r3]) = 1 \<and>
      length (filter is_enriched [r1, r2, r3]) = 2)"
proof -
  define c1 where "c1 = sample_conversation ''c1'' 1700000100"
  define c2 where "c2 = sample_conversation ''c2'' 1700000200"
  define c3 where "c3 = sample_conversation ''c3'' 1700000300"
  have a1: "conversations_list sample_client None (sample_start_ms div 1000)
      (sample_end_ms div 1000) page_size_conversations = Inr sample_conversations_page"
    by (simp add: sample_client_def)
  have a2: "conversations sample_conversations_page = [c1, c2, c3]"
    by (simp add: sample_conversations_page_def c1_def c2_def c3_def)
  have f: "map (detail_fetch_fails sample_client) [c1, c2, c3] = [False, True, False]"
    unfolding c1_def c2_def c3_def by code_simp
  then have a3: "length (filter (detail_fetch_fails sample_client) [c1, c2, c3]) = 1"
    by simp
  have en: "\<not> isl (fetch_and_enrich sample_client c1) \<and> \<not> isl (fetch_and_enrich sample_client c3)"
    unfolding c1_def c3_def by code_simp
  have fm: "\<not> isl (format_timestamp (start_time_unix_secs c2 * 1000))"
    unfolding c2_def by code_simp
  have a4: "\<forall>c \<in> set [c1, c2, c3]. \<not> detail_fetch_fails sample_client c \<longrightarrow>
      \<not> isl (fetch_and_enrich sample_client c)"
    using f en by simp
  have a5: "\<forall>c \<in> set [c1, c2, c3]. detail_fetch_fails sample_client c \<longrightarrow>
      \<not> isl (format_timestamp (start_time_unix_secs c * 1000))"
    using f fm by simp
  have cu: "cursor sample_conversations_page = None"
    by (simp add: sample_conversations_page_def)
  have ids: "map (\<lambda>c. Some (PStr (conversation_id c))) [c1, c2, c3] =
      [Some (PStr ''c1''), Some (PStr ''c2''), Some (PStr ''c3'')]"
    by (simp add: c1_def c2_def c3_def sample_conversation_def)
  note t = one_failed_detail_fetch_of_three [OF a1 a2 a3 a4 a5]
  from t obtain r1 where "\<exists>r2 r3.
       map (\<lambda>r. map_of r ''id'') [r1, r2, r3] =
         map (\<lambda>c. Some (PStr (conversation_id c))) [c1, c2, c3] \<and>
       map is_degraded [r1, r2, r3] = map (detail_fetch_fails sample_client) [c1, c2, c3] \<and>
       length (filter is_degraded [r1, r2, r3]) = 1 \<and>
       length (filter is_enriched [r1, r2, r3]) = 2 \<and>
       (cursor sample_conversations_page = None \<longrightarrow>
          get_conversation_history sample_client sample_start_ms sample_end_ms =
            Some [r1, r2, r3]) \<and>
       (\<forall>k. cursor sample_conversations_page = Some k \<and> k \<noteq> [] \<longrightarrow>
          conversations_loop sample_client (sample_start_ms div 1000)
            (sample_end_ms div 1000) None [] =
          conversations_loop sample_client (sample_start_ms div 1000)
            (sample_end_ms div 1000) (Some k) [r1, r2, r3])" ..
  then obtain r2 where "\<exists>r3.
       map (\<lambda>r. map_of r ''id'') [r1, r2, r3] =
         map (\<lambda>c. Some (PStr (conversation_id c))) [c1, c2, c3] \<and>
       map is_degraded [r1, r2, r3] = map (detail_fetch_fails sample_client) [c1, c2, c3] \<and>
       length (filter is_degraded [r1, r2, r3]) = 1 \<and>
       length (filter is_enriched [r1, r2, r3]) = 2 \<and>
       (cursor sample_conversations_page = None \<longrightarrow>
          get_conversation_history sample_client sample_start_ms sample_end_ms =
            Some [r1, r2, r3]) \<and>
       (\<forall>k. cursor sample_conversations_page = Some k \<and> k \<noteq> [] \<longrightarrow>
          conversations_loop sample_client (sample_start_ms div 1000)
            (sample_end_ms div 1000) None [] =
          conversations_loop sample_client (sample_start_ms div 1000)
            (sample_end_ms div 1000) (Some k) [r1, r2, r3])" ..
  then obtain r3 where r:
      "map (\<lambda>r. map_of r ''id'') [r1, r2, r3] =
         map (\<lambda>c. Some (PStr (conversation_id c))) [c1, c2, c3] \<and>
       map is_degraded [r1, r2, r3] = map (detail_fetch_fails sample_client) [c1, c2, c3] \<and>
       length (filter is_degraded [r1, r2, r3]) = 1 \<and>
       length (filter is_enriched [r1, r2, r3]) = 2 \<and>
       (cursor sample_conversations_page = None \<longrightarrow>
          get_conversation_history sample_client sample_start_ms sample_end_ms =
            Some [r1, r2, r3]) \<and>
       (\<forall>k. cursor sample_conversations_page = Some k \<and> k \<noteq> [] \<longrightarrow>
          conversations_loop sample_client (sample_start_ms div 1000)
            (sample_end_ms div 1000) None [] =
          conversations_loop sample_client (sample_start_ms div 1000)
            (sample_end_ms div 1000) (Some k) [r1, r2, r3])" ..
  note p1 = r [THEN conjunct1]
  note p2 = r [THEN conjunct2, THEN conjunct1]
  note p3 = r [THEN conjunct2, THEN conjunct2, THEN conjunct1]
  note p4 = r [THEN conjunct2, THEN conjunct2, THEN conjunct2, THEN conjunct1]
  note p5 = r [THEN conjunct2, THEN conjunct2, THEN conjunct2, THEN conjunct2, THEN conjunct1]
  have g: "get_conversation_history sample_client sample_start_ms sample_end_ms =
      Some [r1, r2, r3]"
    by (rule mp [OF p5 cu])
  have i: "map (\<lambda>r. map_of r ''id'') [r1, r2, r3] =
      [Some (PStr ''c1''), Some (PStr ''c2''), Some (PStr ''c3'')]"
    using p1 by (simp only: ids)
  have d: "map is_degraded [r1, r2, r3] = [False, True, False]"
    using p2 by (simp only: f)
  have f': "map (detail_fetch_fails sample_client) (conversations sample_conversations_page) =
      [False, True, False]"
    unfolding a2 by (rule f)
  show ?thesis
    by (intro conjI exI [of _ r1] exI [of _ r2] exI [of _ r3]) (rule a1 f' g i d p3 p4)+
qed
section \<open>Claims about the exit status\<close>

text \<open>
  Claim C6, as stated, at an input where it fails: the environment variable is set, to
  the empty string; the start is before the end; the client constructor succeeds. The
  claim gives the exit status 0; the program tests \<open>if not api_key\<close>, which is true of
  the empty string as well, and exits with status 1.
\<close>

theorem main_empty_key_exits_1:
  "env_api_key empty_key_args \<noteq> None \<and>
   start_timestamp empty_key_args < end_timestamp empty_key_args \<and>
   \<not> isl (sample_ElevenLabs []) \<and>
   main empty_key_args sample_ElevenLabs sample_write_report = Some 1"
  by code_simp
text \<open>
  Claim C6, amended. Provided that both normalized timestamps can be formatted and that
  the reporting pass, once a client exists, returns without an exception, the program
  exits with status 1 exactly when the credential variable is unset or empty, when the
  normalized start is not before the normalized end, or when constructing the client
  fails, and with status 0 otherwise.
\<close>

theorem main_exit_status:
  assumes "\<not> isl (format_timestamp (normalize_timestamp (start_timestamp args)))"
    and "\<not> isl (format_timestamp (normalize_timestamp (end_timestamp args)))"
    and "\<forall>k cl. ElevenLabs k = Inr cl \<longrightarrow>
           (\<exists>u. report cl (normalize_timestamp (start_timestamp args))
                   (normalize_timestamp (end_timestamp args)) write_report = Some (Inr u))"
  shows "main args ElevenLabs write_report =
           Some (if env_api_key args = None \<or> env_api_key args = Some [] \<or>
                    normalize_timestamp (end_timestamp args) \<le>
                      normalize_timestamp (start_timestamp args) \<or>
                    (\<exists>k. env_api_key args = Some k \<and> isl (ElevenLabs k))
                 then 1 else 0)"
proof (cases "env_api_key args")
  case None
  then show ?thesis by (simp add: main_def)
next
  case (Some k)
  show ?thesis
  proof (cases "k = [] \<or> normalize_timestamp (end_timestamp args) \<le>
                      normalize_timestamp (start_timestamp args)")
    case True
    with Some show ?thesis by (auto simp: main_def Let_def)
  next
    case False
    from assms(1) obtain fs where
      fs: "format_timestamp (normalize_timestamp (start_timestamp args)) = Inr fs"
      by (cases "format_timestamp (normalize_timestamp (start_timestamp args))") auto
    from assms(2) obtain fe where
      fe: "format_timestamp (normalize_timestamp (end_timestamp args)) = Inr fe"
      by (cases "format_timestamp (normalize_timestamp (end_timestamp args))") auto
    show ?thesis
    proof (cases "ElevenLabs k")
      case (Inl e)
      with Some False fs fe show ?thesis by (simp add: main_def Let_def)
    next
      case (Inr cl)
      with assms(3) obtain u where
        "report cl (normalize_timestamp (start_timestamp args))
           (normalize_timestamp (end_timestamp args)) write_report = Some (Inr u)"
        by blast
      with Some False fs fe Inr show ?thesis by (simp add: main_def Let_def)
    qed
  qed
qed
text \<open>
  Witness for C6 (amended): with a key, the sample window and the sample client the
  window is formatted, the reporting pass returns and the exit status is 0; with the
  empty key it is 1.
\<close>

theorem main_exit_status_witness:
  "\<not> isl (format_timestamp (normalize_timestamp (start_timestamp sample_args))) \<and>
   \<not> isl (format_timestamp (normalize_timestamp (end_timestamp sample_args))) \<and>
   report sample_client (normalize_timestamp (start_timestamp sample_args))
     (normalize_timestamp (end_timestamp sample_args)) sample_write_report = Some (Inr ()) \<and>
   main sample_args sample_ElevenLabs sample_write_report = Some 0 \<and>
   main empty_key_args sample_ElevenLabs sample_write_report = Some 1"
proof -
  note f = sample_main_facts
  have r: "\<forall>k cl. sample_ElevenLabs k = Inr cl \<longrightarrow>
           (\<exists>u. report cl (normalize_timestamp (start_timestamp sample_args))
                   (normalize_timestamp (end_timestamp sample_args)) sample_write_report =
                 Some (Inr u))"
    using f by (simp add: sample_ElevenLabs_def)
  have same: "start_timestamp empty_key_args = start_timestamp sample_args"
    "end_timestamp empty_key_args = end_timestamp sample_args"
    by (simp_all add: empty_key_args_def sample_args_def)
  have m0: "main sample_args sample_ElevenLabs sample_write_report = Some 0"
    using main_exit_status [of sample_args sample_ElevenLabs sample_write_report] f r
    by (simp add: sample_args_def sample_ElevenLabs_def normalize_timestamp_def)
  have m1: "main empty_key_args sample_ElevenLabs sample_write_report = Some 1"
    using main_exit_status [of empty_key_args sample_ElevenLabs sample_write_report] f r
    by (simp add: same) (simp add: empty_key_args_def)
  from f m0 m1 show ?thesis by simp
qed

end
